theory Spec2Isabelle
  imports Complex_Main "HOL-Library.Word"
begin

section \<open>Tensors and the numerical primitives used by the CAM classes\<close>

text \<open>
  The service works on torch tensors of shape \<open>[1, C, H, W]\<close> (batch size one). A
  tensor is modelled as its spatial shape together with the list of its \<open>C\<close> channel
  planes; a plane is a list of \<open>H\<close> rows of \<open>W\<close> numbers. Numbers are real numbers: the
  development describes the arithmetic of the code, not the rounding of 32-bit floats.
\<close>

type_synonym plane = "real list list"

record tensor =
  shape_h :: nat
  shape_w :: nat
  chans :: "plane list"

definition plane_shaped :: "nat \<Rightarrow> nat \<Rightarrow> plane \<Rightarrow> bool" where
  "plane_shaped h w p = (length p = h \<and> list_all (\<lambda>r. length r = w) p)"

definition well_shaped :: "tensor \<Rightarrow> bool" where
  "well_shaped t = list_all (plane_shaped (shape_h t) (shape_w t)) (chans t)"

datatype error = IndexError | RuntimeError | ValueError string | OSError | Cv2Error

subsection \<open>Rounding to a binary floating-point format\<close>

text \<open>
  Where the code compares with, or cuts to a byte, a number that it has just computed in
  floating point, the rounding decides the result and is written out: \<open>fl_round p emin\<close>
  rounds a real number to the nearest number with \<open>p\<close> significant bits and least
  exponent \<open>emin\<close>, ties to the even significand. \<open>float32\<close> is torch's and numpy's
  \<open>float32\<close>, \<open>float64\<close> is numpy's \<open>float64\<close> and Python's \<open>float\<close>. Overflow to
  infinity is not part of the function; it is used on numbers far below the largest
  float.
\<close>

definition round_half_even :: "real \<Rightarrow> int" where
  "round_half_even y =
     (let f = \<lfloor>y\<rfloor>; r = y - of_int f
      in if r < 1 / 2 then f else if r > 1 / 2 then f + 1
         else if even f then f else f + 1)"

definition fl_round :: "nat \<Rightarrow> int \<Rightarrow> real \<Rightarrow> real" where
  "fl_round p emin x =
     (if x = 0 then 0
      else let e = max \<lfloor>log 2 \<bar>x\<bar>\<rfloor> emin;
               u = 2 powr (of_int e - real p + 1)
           in of_int (round_half_even (x / u)) * u)"

definition float32 :: "real \<Rightarrow> real" where
  "float32 = fl_round 24 (- 126)"

definition float64 :: "real \<Rightarrow> real" where
  "float64 = fl_round 53 (- 1022)"

subsection \<open>Element-wise operations and reductions\<close>

text \<open>\<open>F.relu\<close> on a number and on a plane.\<close>

definition relu :: "real \<Rightarrow> real" where
  "relu x = max x 0"

definition F_relu :: "plane \<Rightarrow> plane" where
  "F_relu p = map (map relu) p"

text \<open>\<open>torch.sum(t, dim=(2, 3))\<close> and \<open>torch.mean(t, dim=(2, 3))\<close> for one channel.\<close>

definition torch_sum :: "plane \<Rightarrow> real" where
  "torch_sum p = sum_list (map sum_list p)"

definition torch_mean :: "plane \<Rightarrow> real" where
  "torch_mean p = torch_sum p / real (length (concat p))"

definition torch_zeros :: "nat \<Rightarrow> nat \<Rightarrow> plane" where
  "torch_zeros h w = replicate h (replicate w 0)"

text \<open>The statement \<open>cam += w * a\<close> on planes of one shape.\<close>

definition plane_axpy :: "plane \<Rightarrow> real \<Rightarrow> plane \<Rightarrow> plane" where
  "plane_axpy cam w a = map2 (\<lambda>cr ar. map2 (\<lambda>c x. c + w * x) cr ar) cam a"

text \<open>
  The loop \<open>for i, w in enumerate(weights[0]): cam += w * activations[0, i]\<close>.
  Indexing a channel that the activation tensor does not have raises.
\<close>

fun cam_loop :: "nat \<Rightarrow> real list \<Rightarrow> plane list \<Rightarrow> plane \<Rightarrow> error + plane" where
  "cam_loop i [] acts cam = Inr cam"
| "cam_loop i (w # ws) acts cam =
     (if i < length acts then cam_loop (Suc i) ws acts (plane_axpy cam w (acts ! i))
      else Inl IndexError)"

definition eps :: real where
  "eps = 1 / 100000000"

text \<open>
  The post-processing block that closes each of the three \<open>__call__\<close> methods, word for
  word the same in all three:
  \<^verbatim>\<open>
  cam = F.relu(cam)
  cam_min = cam.min()
  cam_max = cam.max()
  if cam_max > cam_min:
      cam = (cam - cam_min) / (cam_max - cam_min + 1e-8)
  return cam.cpu().numpy()[None, :]
  \<close>
  \<open>min()\<close> and \<open>max()\<close> of a tensor without elements raise.
\<close>

definition postprocess :: "plane \<Rightarrow> error + plane" where
  "postprocess cam0 =
     (let cam = F_relu cam0 in
      if concat cam = [] then Inl RuntimeError
      else
        let cam_min = Min (set (concat cam));
            cam_max = Max (set (concat cam))
        in Inr (if cam_max > cam_min
                then map (map (\<lambda>x. (x - cam_min) / (cam_max - cam_min + eps))) cam
                else cam))"

subsection \<open>The post-processing on values that may be infinite or NaN\<close>












subsection \<open>GradCAM\<close>

text \<open>
  The numerical part of \<open>GradCAM.__call__\<close>, from the captured activation and gradient
  tensors on.
\<close>

definition gradcam_weights :: "tensor \<Rightarrow> real list" where
  "gradcam_weights gradients = map (\<lambda>g. torch_mean (F_relu g)) (chans gradients)"

definition gradcam_compute :: "tensor \<Rightarrow> tensor \<Rightarrow> error + plane" where
  "gradcam_compute activations gradients =
     (let weights = gradcam_weights gradients;
          cam = torch_zeros (shape_h activations) (shape_w activations)
      in case cam_loop 0 weights (chans activations) cam of
           Inl e \<Rightarrow> Inl e
         | Inr cam \<Rightarrow> postprocess cam)"

subsection \<open>GradCAM++\<close>

text \<open>
  \<open>alpha_denom\<close> adds the per-channel spatial sum (kept as a \<open>[1, C, 1, 1]\<close> tensor by
  \<open>keepdim=True\<close>) to every position of \<open>2 * gradients ** 2\<close>.
\<close>

definition plane_mul :: "plane \<Rightarrow> plane \<Rightarrow> plane" where
  "plane_mul p q = map2 (\<lambda>pr qr. map2 (\<lambda>x y. x * y) pr qr) p q"

definition gradcampp_alpha :: "plane \<Rightarrow> plane \<Rightarrow> plane" where
  "gradcampp_alpha a g =
     (let alpha_num = map (map (\<lambda>x. x ^ 2)) g;
          s = torch_sum (plane_mul a (map (map (\<lambda>x. x ^ 3)) g));
          alpha_denom = map (map (\<lambda>x. 2 * x ^ 2 + s)) g
      in map2 (\<lambda>nr dr. map2 (\<lambda>n d. n / (d + eps)) nr dr) alpha_num alpha_denom)"

definition gradcampp_weights :: "tensor \<Rightarrow> tensor \<Rightarrow> real list" where
  "gradcampp_weights activations gradients =
     map2 (\<lambda>a g. torch_sum (plane_mul (gradcampp_alpha a g) (F_relu g)))
       (chans activations) (chans gradients)"

definition same_shape :: "tensor \<Rightarrow> tensor \<Rightarrow> bool" where
  "same_shape s t = (shape_h s = shape_h t \<and> shape_w s = shape_w t
     \<and> length (chans s) = length (chans t))"

text \<open>
  The product \<open>activations * gradients ** 3\<close> raises when the two tensors differ in shape
  (both are captured at the same layer, so they do not; broadcasting of a dimension of
  size one is left out).
\<close>

definition gradcampp_compute :: "tensor \<Rightarrow> tensor \<Rightarrow> error + plane" where
  "gradcampp_compute activations gradients =
     (if \<not> same_shape activations gradients then Inl RuntimeError
      else
        let weights = gradcampp_weights activations gradients;
            cam = torch_zeros (shape_h activations) (shape_w activations)
        in case cam_loop 0 weights (chans activations) cam of
             Inl e \<Rightarrow> Inl e
           | Inr cam \<Rightarrow> postprocess cam)"


section \<open>The shared model, its hooks and the CAM objects\<close>

text \<open>
  The network itself (a DenseNet121 with trained weights) is not part of the code under
  study; it is a parameter. \<open>net_logits\<close> is the output of a forward pass,
  \<open>net_features\<close> the output of the target layer \<open>denseblock4\<close> during that pass, and
  \<open>net_grad x c\<close> the gradient of the score of class \<open>c\<close> with respect to that output.
\<close>

record network =
  net_logits :: "tensor \<Rightarrow> real list"
  net_features :: "tensor \<Rightarrow> tensor"
  net_grad :: "tensor \<Rightarrow> nat \<Rightarrow> tensor"

text \<open>
  A CAM object owns two lists, filled by the hooks it registered. The heap of CAM objects
  is a list, an object's identity its index. The target layer carries the forward and the
  backward hooks in the order of registration; each hook is the closure of one CAM object
  and is identified with it. The three counters are not variables of the code: they
  count the forward passes, the backward passes and the calls of hooks, so that
  statements about them can be made.
\<close>

record cam_object =
  activations :: "tensor list"
  gradients :: "tensor list"

record torch_state =
  objects :: "cam_object list"
  forward_hooks :: "nat list"
  backward_hooks :: "nat list"
  forward_passes :: nat
  backward_passes :: nat
  hook_calls :: nat

definition forward_hook :: "tensor \<Rightarrow> nat \<Rightarrow> cam_object list \<Rightarrow> cam_object list" where
  "forward_hook output self objs =
     objs[self := (objs ! self)\<lparr>activations := activations (objs ! self) @ [output]\<rparr>]"

definition backward_hook :: "tensor \<Rightarrow> nat \<Rightarrow> cam_object list \<Rightarrow> cam_object list" where
  "backward_hook grad_out self objs =
     objs[self := (objs ! self)\<lparr>gradients := gradients (objs ! self) @ [grad_out]\<rparr>]"

text \<open>
  \<open>self.model(x)\<close>: one forward pass. Every forward hook on the target layer is called
  with the layer's output.
\<close>

definition model_call :: "network \<Rightarrow> tensor \<Rightarrow> torch_state \<Rightarrow> real list \<times> torch_state" where
  "model_call nw x st =
     (net_logits nw x,
      st\<lparr>objects := fold (forward_hook (net_features nw x)) (forward_hooks st) (objects st),
         forward_passes := forward_passes st + 1,
         hook_calls := hook_calls st + length (forward_hooks st)\<rparr>)"

text \<open>\<open>target_score.backward()\<close>: one backward pass; every backward hook is called.\<close>

definition backward :: "network \<Rightarrow> tensor \<Rightarrow> nat \<Rightarrow> torch_state \<Rightarrow> torch_state" where
  "backward nw x c st =
     st\<lparr>objects := fold (backward_hook (net_grad nw x c)) (backward_hooks st) (objects st),
        backward_passes := backward_passes st + 1,
        hook_calls := hook_calls st + length (backward_hooks st)\<rparr>"

text \<open>
  \<open>CAMBase.__init__\<close> with \<open>_register_hooks\<close>: a new object with empty lists, and one
  forward and one backward hook registered on the single target layer. The handles that
  \<open>register_forward_hook\<close> and \<open>register_backward_hook\<close> return are dropped, so nothing
  removes a hook.
\<close>

definition CAMBase_init :: "torch_state \<Rightarrow> nat \<times> torch_state" where
  "CAMBase_init st =
     (let self = length (objects st) in
      (self,
       st\<lparr>objects := objects st @ [\<lparr>activations = [], gradients = []\<rparr>],
          forward_hooks := forward_hooks st @ [self],
          backward_hooks := backward_hooks st @ [self]\<rparr>))"

definition get_activations_gradients ::
  "network \<Rightarrow> nat \<Rightarrow> tensor \<Rightarrow> torch_state \<Rightarrow> real list \<times> torch_state" where
  "get_activations_gradients nw self input_tensor st =
     model_call nw input_tensor
       (st\<lparr>objects := (objects st)[self := \<lparr>activations = [], gradients = []\<rparr>]\<rparr>)"

text \<open>
  The part that \<open>GradCAM.__call__\<close> and \<open>GradCAMPlusPlus.__call__\<close> share: the forward
  pass, the backward pass from the target score when a target is given, and the reading
  of the first captured activation and gradient. \<open>output[0, targets]\<close> raises for a class
  the output does not have, and \<open>self.activations[0]\<close>, \<open>self.gradients[0]\<close> raise on an
  empty list.
\<close>

definition capture ::
  "network \<Rightarrow> nat \<Rightarrow> tensor \<Rightarrow> nat option \<Rightarrow> torch_state
     \<Rightarrow> (error + tensor \<times> tensor) \<times> torch_state" where
  "capture nw self input_tensor targets st =
     (let (output, st1) = get_activations_gradients nw self input_tensor st in
      case (case targets of
              None \<Rightarrow> Inr st1
            | Some c \<Rightarrow> if c < length output then Inr (backward nw input_tensor c st1)
                        else Inl IndexError) of
        Inl e \<Rightarrow> (Inl e, st1)
      | Inr st2 \<Rightarrow>
          (case activations (objects st2 ! self) of
             [] \<Rightarrow> (Inl IndexError, st2)
           | a # _ \<Rightarrow>
               (case gradients (objects st2 ! self) of
                  [] \<Rightarrow> (Inl IndexError, st2)
                | g # _ \<Rightarrow> (Inr (a, g), st2))))"

definition GradCAM_call ::
  "network \<Rightarrow> nat \<Rightarrow> tensor \<Rightarrow> nat option \<Rightarrow> torch_state \<Rightarrow> (error + plane) \<times> torch_state" where
  "GradCAM_call nw self input_tensor targets st =
     (case capture nw self input_tensor targets st of
        (Inl e, st') \<Rightarrow> (Inl e, st')
      | (Inr (a, g), st') \<Rightarrow> (gradcam_compute a g, st'))"

definition GradCAMPlusPlus_call ::
  "network \<Rightarrow> nat \<Rightarrow> tensor \<Rightarrow> nat option \<Rightarrow> torch_state \<Rightarrow> (error + plane) \<times> torch_state" where
  "GradCAMPlusPlus_call nw self input_tensor targets st =
     (case capture nw self input_tensor targets st of
        (Inl e, st') \<Rightarrow> (Inl e, st')
      | (Inr (a, g), st') \<Rightarrow> (gradcampp_compute a g, st'))"

subsection \<open>ScoreCAM\<close>

text \<open>
  Three library functions, written out. \<open>torch.topk(v, k)\<close> gives the indices of the
  \<open>k\<close> largest entries, largest first (the library leaves the order of equal entries
  open; here the smaller index comes first). \<open>F.interpolate\<close> in mode \<open>bilinear\<close> with
  \<open>align_corners=False\<close> and \<open>cv2.resize\<close> with \<open>INTER_LINEAR\<close> compute the same
  interpolation: output position \<open>d\<close> reads the input at \<open>(d + 1/2) * n_in / n_out - 1/2\<close>,
  moved into the input's range, and mixes the two neighbours on each axis. \<open>F.softmax\<close>
  over the flattened plane divides each exponential by the sum of all of them.
\<close>

definition torch_topk :: "real list \<Rightarrow> nat \<Rightarrow> nat list" where
  "torch_topk v k = take k (sort_key (\<lambda>i. - (v ! i)) [0..<length v])"

definition src_coord :: "nat \<Rightarrow> nat \<Rightarrow> nat \<Rightarrow> real" where
  "src_coord n_in n_out d = max 0 ((real d + 1 / 2) * (real n_in / real n_out) - 1 / 2)"

definition bilinear_at :: "nat \<Rightarrow> nat \<Rightarrow> plane \<Rightarrow> nat \<Rightarrow> nat \<Rightarrow> nat \<Rightarrow> nat \<Rightarrow> real" where
  "bilinear_at sh sw p h w y x =
     (let fy = src_coord sh h y; fx = src_coord sw w x;
          y0 = nat \<lfloor>fy\<rfloor>; x0 = nat \<lfloor>fx\<rfloor>;
          y1 = min (y0 + 1) (sh - 1); x1 = min (x0 + 1) (sw - 1);
          ly = fy - real y0; lx = fx - real x0
      in (1 - ly) * ((1 - lx) * p ! y0 ! x0 + lx * p ! y0 ! x1)
         + ly * ((1 - lx) * p ! y1 ! x0 + lx * p ! y1 ! x1))"

definition bilinear_resize :: "nat \<Rightarrow> nat \<Rightarrow> plane \<Rightarrow> nat \<Rightarrow> nat \<Rightarrow> plane" where
  "bilinear_resize sh sw p h w =
     map (\<lambda>y. map (\<lambda>x. bilinear_at sh sw p h w y x) [0..<w]) [0..<h]"

definition F_softmax :: "plane \<Rightarrow> plane" where
  "F_softmax p = (let z = torch_sum (map (map exp) p) in map (map (\<lambda>x. exp x / z)) p)"

text \<open>
  The loop \<open>for i in top_k_indices\<close> of \<open>ScoreCAM.__call__\<close>: one masked forward pass per
  selected channel. \<open>height\<close> and \<open>width\<close> are those of the input tensor.
\<close>

fun scorecam_loop ::
  "network \<Rightarrow> tensor \<Rightarrow> nat option \<Rightarrow> tensor \<Rightarrow> real list \<Rightarrow> nat list \<Rightarrow> plane
     \<Rightarrow> torch_state \<Rightarrow> (error + plane) \<times> torch_state" where
  "scorecam_loop nw input_tensor targets acts channel_importance [] cam st = (Inr cam, st)"
| "scorecam_loop nw input_tensor targets acts channel_importance (i # rest) cam st =
     (let activation = chans acts ! i;
          upsampled = bilinear_resize (shape_h acts) (shape_w acts) activation
                        (shape_h input_tensor) (shape_w input_tensor);
          upsampled_norm = F_softmax upsampled;
          masked_input =
            input_tensor\<lparr>chans := map (\<lambda>c. plane_mul c upsampled_norm) (chans input_tensor)\<rparr>;
          (output, st1) = model_call nw masked_input st
      in case (case targets of
                 Some c \<Rightarrow> if c < length output then Inr (output ! c) else Inl IndexError
               | None \<Rightarrow> if output = [] then Inl RuntimeError else Inr (Max (set output))) of
           Inl e \<Rightarrow> (Inl e, st1)
         | Inr score \<Rightarrow>
             scorecam_loop nw input_tensor targets acts channel_importance rest
               (map2 (\<lambda>cr ur. map2 (\<lambda>c u. c + score * u * channel_importance ! i) cr ur)
                  cam upsampled_norm)
               st1)"

text \<open>
  \<open>ScoreCAM.__call__\<close>. The first forward pass captures the activations; the method
  never calls \<open>backward\<close>. \<open>activations.view(C, -1)\<close> and \<open>F.interpolate\<close> raise on a
  tensor without elements or a target size of zero.
\<close>

definition ScoreCAM_call ::
  "network \<Rightarrow> nat \<Rightarrow> tensor \<Rightarrow> nat option \<Rightarrow> torch_state \<Rightarrow> (error + plane) \<times> torch_state" where
  "ScoreCAM_call nw self input_tensor targets st =
     (let height = shape_h input_tensor; width = shape_w input_tensor;
          (output, st1) = get_activations_gradients nw self input_tensor st
      in case activations (objects st1 ! self) of
           [] \<Rightarrow> (Inl IndexError, st1)
         | a # _ \<Rightarrow>
             if shape_h a = 0 \<or> shape_w a = 0 \<or> height = 0 \<or> width = 0
             then (Inl RuntimeError, st1)
             else
               let acts = a\<lparr>chans := map F_relu (chans a)\<rparr>;
                   channel_importance = map torch_mean (chans acts);
                   k = min 64 (length (chans acts));
                   top_k_indices = torch_topk channel_importance k;
                   cam = torch_zeros height width
               in (case scorecam_loop nw input_tensor targets acts channel_importance
                          top_k_indices cam st1 of
                     (Inl e, st2) \<Rightarrow> (Inl e, st2)
                   | (Inr cam, st2) \<Rightarrow> (postprocess cam, st2)))"

section \<open>The service\<close>

datatype cam_class = GradCAM | GradCAMPlusPlus | ScoreCAM

definition cam_classes :: "string \<rightharpoonup> cam_class" where
  "cam_classes = [''gradcam'' \<mapsto> GradCAM, ''gradcam++'' \<mapsto> GradCAMPlusPlus,
                  ''scorecam'' \<mapsto> ScoreCAM]"

text \<open>
  \<open>ChestXrayService.generate_heatmap\<close>: the method name is looked up first; a known
  method constructs a new CAM object on the shared model and calls it with the class
  index as target.
\<close>

definition generate_heatmap ::
  "network \<Rightarrow> tensor \<Rightarrow> nat \<Rightarrow> string \<Rightarrow> torch_state \<Rightarrow> (error + plane) \<times> torch_state" where
  "generate_heatmap nw image_tensor class_idx cam_method st =
     (case cam_classes cam_method of
        None \<Rightarrow> (Inl (ValueError (''Unsupported CAM method: '' @ cam_method)), st)
      | Some cls \<Rightarrow>
          let (cam, st1) = CAMBase_init st in
          (case cls of
             GradCAM \<Rightarrow> GradCAM_call nw cam image_tensor (Some class_idx) st1
           | GradCAMPlusPlus \<Rightarrow> GradCAMPlusPlus_call nw cam image_tensor (Some class_idx) st1
           | ScoreCAM \<Rightarrow> ScoreCAM_call nw cam image_tensor (Some class_idx) st1))"

subsection \<open>Classification and thresholding\<close>

definition torch_sigmoid :: "real \<Rightarrow> real" where
  "torch_sigmoid x = 1 / (1 + exp (- x))"

text \<open>
  The loop \<open>for i, threshold in enumerate(optimal_thresholds):
  predictions[:, i] = (probabilities[:, i] > threshold).float()\<close>, started on
  \<open>torch.zeros_like(probabilities)\<close>. The probabilities are a \<open>float32\<close> tensor and
  the threshold is a Python number: torch converts the number to \<open>float32\<close> and compares
  in that format.
\<close>

fun threshold_loop :: "nat \<Rightarrow> real list \<Rightarrow> real list \<Rightarrow> real list \<Rightarrow> error + real list" where
  "threshold_loop i [] probabilities predictions = Inr predictions"
| "threshold_loop i (threshold # rest) probabilities predictions =
     (if i < length probabilities
      then threshold_loop (Suc i) rest probabilities
             (predictions[i := (if probabilities ! i > float32 threshold then 1 else 0)])
      else Inl IndexError)"

text \<open>\<open>np.argmax\<close>: the first index that holds the maximum; an empty array raises.\<close>

fun argmax_loop :: "nat \<Rightarrow> real \<Rightarrow> nat \<Rightarrow> real list \<Rightarrow> nat" where
  "argmax_loop best v i [] = best"
| "argmax_loop best v i (x # xs) =
     (if x > v then argmax_loop i x (Suc i) xs else argmax_loop best v (Suc i) xs)"

definition np_argmax :: "real list \<Rightarrow> error + nat" where
  "np_argmax xs = (case xs of
       [] \<Rightarrow> Inl (ValueError ''attempt to get argmax of an empty sequence'')
     | x # rest \<Rightarrow> Inr (argmax_loop 0 x 1 rest))"

text \<open>
  The classification step of \<open>ChestXrayService.predict\<close>: from the model's output to the
  thresholded labels, the probabilities and the class chosen for the heatmap. Between
  the loop and \<open>np.argmax\<close> a logging line evaluates \<open>output.min()\<close>, which raises on an
  empty output.
\<close>

definition classify :: "real list \<Rightarrow> real list \<Rightarrow> error + real list \<times> real list \<times> nat" where
  "classify optimal_thresholds output =
     (let probabilities = map torch_sigmoid output;
          predictions = replicate (length probabilities) 0
      in case threshold_loop 0 optimal_thresholds probabilities predictions of
           Inl e \<Rightarrow> Inl e
         | Inr pred_labels \<Rightarrow>
             if output = [] then Inl RuntimeError
             else
               (case np_argmax probabilities of
                  Inl e \<Rightarrow> Inl e
                | Inr class_idx \<Rightarrow> Inr (pred_labels, probabilities, class_idx)))"

subsection \<open>Rendering the heatmap and the overlay\<close>

text \<open>
  An 8-bit colour image: its size and its rows of pixels. A pixel is a triple of bytes,
  read as (R, G, B) or as (B, G, R) as the code says.
\<close>

type_synonym pixel = "8 word \<times> 8 word \<times> 8 word"

record image =
  im_width :: nat
  im_height :: nat
  im_rows :: "pixel list list"


definition np_clip :: "real \<Rightarrow> real \<Rightarrow> real \<Rightarrow> real" where
  "np_clip x lo hi = min (max x lo) hi"

text \<open>The cast of a float to \<open>uint8\<close> drops the fraction.\<close>

definition np_uint8 :: "real \<Rightarrow> 8 word" where
  "np_uint8 x = word_of_int (if 0 \<le> x then \<lfloor>x\<rfloor> else \<lceil>x\<rceil>)"

definition swap_rb :: "pixel \<Rightarrow> pixel" where
  "swap_rb px = (case px of (a, g, b) \<Rightarrow> (b, g, a))"

text \<open>
  One channel of \<open>heatmap_colored * 0.3 + original_bgr * 0.7\<close>, clipped and cast. The two
  arrays hold bytes and the factors are Python floats, so numpy computes the two
  products and the sum in \<open>float64\<close>, each rounded; \<open>0.3\<close> and \<open>0.7\<close> are themselves
  the doubles nearest to three and seven tenths.
\<close>

definition blend :: "8 word \<Rightarrow> 8 word \<Rightarrow> 8 word" where
  "blend h orig =
     np_uint8 (np_clip
       (float64 (float64 (real (unat h) * float64 (3 / 10))
                 + float64 (real (unat orig) * float64 (7 / 10)))) 0 255)"

text \<open>
  Lines 391 to 429 of \<open>predict\<close>: resize, clip, colour, blend, convert to RGB. The colour
  table of \<open>cv2.COLORMAP_JET\<close> is a parameter (byte to a (B, G, R) pixel). \<open>cv2.resize\<close>
  raises on an empty source or an empty target size. The resized map is a \<open>float32\<close>
  array, so the product with 255 is rounded to \<open>float32\<close> before the cast to a byte; the
  interpolation inside \<open>cv2.resize\<close> is taken in exact arithmetic. The result is the image
  saved as heatmap and the image saved as overlay.
\<close>

definition render :: "(8 word \<Rightarrow> pixel) \<Rightarrow> plane \<Rightarrow> image \<Rightarrow> error + image \<times> image" where
  "render colormap heatmap original_image =
     (let original_size = (im_width original_image, im_height original_image);
          original_np = im_rows original_image;
          src_h = length heatmap;
          src_w = (case heatmap of [] \<Rightarrow> 0 | r # _ \<Rightarrow> length r)
      in if src_h = 0 \<or> src_w = 0 \<or> fst original_size = 0 \<or> snd original_size = 0
         then Inl Cv2Error
         else
           let heatmap_resized =
                 bilinear_resize src_h src_w heatmap (snd original_size) (fst original_size);
               heatmap_resized = map (map (\<lambda>v. np_clip v 0 1)) heatmap_resized;
               heatmap_uint8 = map (map (\<lambda>v. np_uint8 (float32 (255 * v)))) heatmap_resized;
               heatmap_colored = map (map colormap) heatmap_uint8;
               original_bgr = map (map swap_rb) original_np;
               superimposed_img =
                 map2 (\<lambda>hrow orow. map2 (\<lambda>(hb, hg, hr) (ob, og, orr).
                         (blend hb ob, blend hg og, blend hr orr)) hrow orow)
                   heatmap_colored original_bgr;
               heatmap_rgb = map (map swap_rb) heatmap_colored;
               superimposed_rgb = map (map swap_rb) superimposed_img
           in Inr (\<lparr>im_width = fst original_size, im_height = snd original_size,
                     im_rows = heatmap_rgb\<rparr>,
                   \<lparr>im_width = fst original_size, im_height = snd original_size,
                     im_rows = superimposed_rgb\<rparr>))"

subsection \<open>Configuration, collaborators and state\<close>

record config =
  NUM_CLASSES :: nat
  DISEASE_LABELS :: "string list"
  ALLOWED_EXTENSIONS :: "string set"

definition Config :: config where
  "Config = \<lparr>NUM_CLASSES = 14,
     DISEASE_LABELS = [''Atelectasis'', ''Cardiomegaly'', ''Effusion'', ''Infiltration'',
       ''Mass'', ''Nodule'', ''Pneumonia'', ''Pneumothorax'',
       ''Consolidation'', ''Edema'', ''Emphysema'', ''Fibrosis'',
       ''Pleural_Thickening'', ''Hernia''],
     ALLOWED_EXTENSIONS = {''png'', ''jpg'', ''jpeg''}\<rparr>"

text \<open>
  What the service takes from outside the code under study: the network, the thresholds
  loaded at start-up, \<open>hashlib.md5(...).hexdigest()\<close>, the decoding of a file into an RGB
  image (\<open>None\<close> when \<open>Image.open\<close> raises), the transform to the model's input
  tensor, the colour table and werkzeug's \<open>secure_filename\<close>.
\<close>

record env =
  cfg :: config
  model :: network
  optimal_thresholds :: "real list"
  md5_hexdigest :: "8 word list \<Rightarrow> string"
  image_open :: "8 word list \<Rightarrow> image option"
  transform :: "image \<Rightarrow> tensor"
  colormap_jet :: "8 word \<Rightarrow> pixel"
  secure_filename :: "string \<Rightarrow> string"

record upload =
  up_filename :: string
  up_content :: "8 word list"

record prediction =
  positive :: bool
  probability :: real

text \<open>The result dictionary, one field per key (\<open>r_\<close> for the key's name).\<close>

record prediction_result =
  r_predictions :: "(string \<times> prediction) list"
  r_heatmap_path :: string
  r_superimposed_path :: string
  r_cam_method :: string
  r_original_size :: "nat \<times> nat"
  r_model_input_size :: "nat \<times> nat"

text \<open>
  The state a request can change: the shared model with its hooks, the cache, and the
  result directory. The temporary upload file is left out; reading it back gives the
  uploaded bytes.
\<close>

record service_state =
  torch :: torch_state
  redis :: "string \<rightharpoonup> prediction_result"
  result_dir :: "string \<rightharpoonup> image"

text \<open>
  What can go wrong in the two cache blocks of one request. In the first block the
  import of the manager, the reading of the file for hashing, or \<open>get_cache\<close> may raise;
  in the second \<open>set_cache\<close> may raise. Each block catches every exception and logs a
  warning.
\<close>

datatype read_fault = NoFault | ImportRaises | HashRaises | GetRaises

record faults =
  on_read :: read_fault
  set_raises :: bool

definition ascii_lower :: "char \<Rightarrow> char" where
  "ascii_lower c =
     (case map_of (zip ''ABCDEFGHIJKLMNOPQRSTUVWXYZ'' ''abcdefghijklmnopqrstuvwxyz'') c of
        Some l \<Rightarrow> l
      | None \<Rightarrow> c)"

text \<open>
  \<open>'.' in filename and filename.rsplit('.', 1)[1].lower() in ALLOWED_EXTENSIONS\<close>. On the
  letters of the allowed extensions \<open>lower\<close> acts as on ASCII.
\<close>

definition allowed_file :: "config \<Rightarrow> string \<Rightarrow> bool" where
  "allowed_file c fn = (CHR ''.'' \<in> set fn \<and>
     map ascii_lower (rev (takeWhile (\<lambda>ch. ch \<noteq> CHR ''.'') (rev fn))) \<in> ALLOWED_EXTENSIONS c)"

definition cache_key_of :: "env \<Rightarrow> 8 word list \<Rightarrow> string \<Rightarrow> string" where
  "cache_key_of e bytes cam_method =
     ''chest_xray:'' @ md5_hexdigest e bytes @ '':'' @ cam_method"

text \<open>
  The first cache block. The result is the cached value when there is one, and
  otherwise what the second block will find among the local variables: whether
  \<open>redis_mgr\<close> is bound, and the cache key if it was computed.
\<close>

definition cache_check ::
  "env \<Rightarrow> upload \<Rightarrow> string \<Rightarrow> read_fault \<Rightarrow> service_state
     \<Rightarrow> prediction_result option \<times> bool \<times> string option" where
  "cache_check e file cam_method f st =
     (case f of
        ImportRaises \<Rightarrow> (None, False, None)
      | HashRaises \<Rightarrow> (None, True, None)
      | GetRaises \<Rightarrow> (None, True, Some (cache_key_of e (up_content file) cam_method))
      | NoFault \<Rightarrow>
          (let cache_key = cache_key_of e (up_content file) cam_method
           in (redis st cache_key, True, Some cache_key)))"

text \<open>
  The second cache block: \<open>set_cache\<close> is called when \<open>redis_mgr\<close> is a local variable;
  an unbound \<open>cache_key\<close> or a failing \<open>set_cache\<close> raises, which is caught.
\<close>

definition cache_store ::
  "bool \<Rightarrow> string option \<Rightarrow> prediction_result \<Rightarrow> bool \<Rightarrow> service_state \<Rightarrow> service_state" where
  "cache_store redis_mgr_bound cache_key results raises st =
     (if redis_mgr_bound then
        (case cache_key of
           None \<Rightarrow> st
         | Some k \<Rightarrow> if raises then st else st\<lparr>redis := (redis st)(k \<mapsto> results)\<rparr>)
      else st)"

text \<open>
  The dictionary built by \<open>for i in range(NUM_CLASSES)\<close>; an index beyond the labels or
  the predictions raises.
\<close>

definition build_predictions ::
  "config \<Rightarrow> real list \<Rightarrow> real list \<Rightarrow> error + (string \<times> prediction) list" where
  "build_predictions c pred_labels pred_probs =
     (if NUM_CLASSES c \<le> length (DISEASE_LABELS c) \<and> NUM_CLASSES c \<le> length pred_probs
         \<and> NUM_CLASSES c \<le> length pred_labels
      then Inr (map (\<lambda>i. (DISEASE_LABELS c ! i,
                  \<lparr>positive = (pred_labels ! i \<noteq> 0), probability = pred_probs ! i\<rparr>))
                [0..<NUM_CLASSES c])
      else Inl IndexError)"

subsection \<open>The predictor\<close>

text \<open>
  \<open>Predictor.predict_single_image\<close>: the same sigmoid and the same threshold loop, on
  the image stored at a path (here its bytes) under a transform given by the caller.
\<close>

definition predict_single_image ::
  "env \<Rightarrow> 8 word list \<Rightarrow> (image \<Rightarrow> tensor) \<Rightarrow> torch_state
     \<Rightarrow> (error + real list \<times> real list) \<times> torch_state" where
  "predict_single_image e image_bytes transform' st =
     (case image_open e image_bytes of
        None \<Rightarrow> (Inl OSError, st)
      | Some img \<Rightarrow>
          let (output, st1) = model_call (model e) (transform' img) st;
              probabilities = map torch_sigmoid output;
              predictions = replicate (length probabilities) 0
          in (case threshold_loop 0 (optimal_thresholds e) probabilities predictions of
                Inl err \<Rightarrow> (Inl err, st1)
              | Inr predictions \<Rightarrow> (Inr (predictions, probabilities), st1)))"

subsection \<open>The prediction pipeline\<close>

text \<open>
  The two label look-ups made for logging between classification and heatmap:
  \<open>DISEASE_LABELS[class_idx]\<close> and \<open>DISEASE_LABELS[i]\<close> for every positive \<open>i\<close>.
\<close>

definition labels_ok :: "config \<Rightarrow> real list \<Rightarrow> nat \<Rightarrow> bool" where
  "labels_ok c pred_labels class_idx =
     (class_idx < length (DISEASE_LABELS c)
      \<and> list_all (\<lambda>i. pred_labels ! i = 1 \<longrightarrow> i < length (DISEASE_LABELS c))
           [0..<length pred_labels])"

text \<open>
  \<open>predict\<close> after a cache miss (from \<open>Image.open\<close> on). \<open>filename\<close> is the secured
  temporary name; \<open>redis_mgr_bound\<close> and \<open>cache_key\<close> are what the first cache block
  left behind.
\<close>

definition predict_compute ::
  "env \<Rightarrow> upload \<Rightarrow> string \<Rightarrow> string \<Rightarrow> bool \<Rightarrow> string option \<Rightarrow> bool \<Rightarrow> service_state
     \<Rightarrow> (error + prediction_result) \<times> service_state" where
  "predict_compute e file cam_method filename redis_mgr_bound cache_key raises st =
     (case image_open e (up_content file) of
        None \<Rightarrow> (Inl OSError, st)
      | Some original_image \<Rightarrow>
          let original_size = (im_width original_image, im_height original_image);
              image_tensor = transform e original_image;
              (output, t1) = model_call (model e) image_tensor (torch st);
              st1 = st\<lparr>torch := t1\<rparr>
          in (case classify (optimal_thresholds e) output of
                Inl err \<Rightarrow> (Inl err, st1)
              | Inr (pred_labels, pred_probs, class_idx) \<Rightarrow>
                  if \<not> labels_ok (cfg e) pred_labels class_idx then (Inl IndexError, st1)
                  else
                    (case generate_heatmap (model e) image_tensor class_idx cam_method t1 of
                       (Inl err, t2) \<Rightarrow> (Inl err, st\<lparr>torch := t2\<rparr>)
                     | (Inr heatmap, t2) \<Rightarrow>
                         (case render (colormap_jet e) heatmap original_image of
                            Inl err \<Rightarrow> (Inl err, st\<lparr>torch := t2\<rparr>)
                          | Inr (heatmap_img, superimposed_img) \<Rightarrow>
                              let heatmap_filename = ''heatmap_'' @ cam_method @ ''_'' @ filename;
                                  superimposed_filename =
                                    ''superimposed_'' @ cam_method @ ''_'' @ filename;
                                  st3 = st\<lparr>torch := t2,
                                          result_dir := (result_dir st)
                                            (heatmap_filename \<mapsto> heatmap_img,
                                             superimposed_filename \<mapsto> superimposed_img)\<rparr>
                              in (case build_predictions (cfg e) pred_labels pred_probs of
                                    Inl err \<Rightarrow> (Inl err, st3)
                                  | Inr predictions \<Rightarrow>
                                      let results =
                                            \<lparr>r_predictions = predictions,
                                             r_heatmap_path = heatmap_filename,
                                             r_superimposed_path = superimposed_filename,
                                             r_cam_method = cam_method,
                                             r_original_size = original_size,
                                             r_model_input_size = (512, 512)\<rparr>
                                      in (Inr results,
                                          cache_store redis_mgr_bound cache_key results raises
                                            st3))))))"

text \<open>
  \<open>ChestXrayService.predict\<close>. \<open>uuid\<close> is the value \<open>uuid.uuid4()\<close> gives for this
  request. A cached result ends the request at once.
\<close>

definition predict ::
  "env \<Rightarrow> upload \<Rightarrow> string \<Rightarrow> string \<Rightarrow> faults \<Rightarrow> service_state
     \<Rightarrow> (error + prediction_result) \<times> service_state" where
  "predict e file cam_method uuid flt st =
     (if up_filename file = [] \<or> \<not> allowed_file (cfg e) (up_filename file)
      then (Inl (ValueError ''Invalid file format. Only PNG, JPG, JPEG allowed''), st)
      else
        let filename = secure_filename e (uuid @ ''_'' @ up_filename file);
            (cached_result, redis_mgr_bound, cache_key) =
              cache_check e file cam_method (on_read flt) st
        in (case cached_result of
              Some r \<Rightarrow> (Inr r, st)
            | None \<Rightarrow>
                predict_compute e file cam_method filename redis_mgr_bound cache_key
                  (set_raises flt) st))"

subsection \<open>The Flask route\<close>

record request =
  files_file :: "upload option"
  form_cam_method :: "string option"

datatype response =
  BadRequest string
| ServerError error
| Results prediction_result

text \<open>
  The route \<open>/predict\<close>: a missing file and an unknown method are answered with status
  400 before the service is called; an exception of the service becomes status 500.
\<close>

definition predict_route ::
  "env \<Rightarrow> request \<Rightarrow> string \<Rightarrow> faults \<Rightarrow> service_state \<Rightarrow> response \<times> service_state" where
  "predict_route e req uuid flt st =
     (case files_file req of
        None \<Rightarrow> (BadRequest ''No file provided'', st)
      | Some file \<Rightarrow>
          let cam_method = (case form_cam_method req of None \<Rightarrow> ''gradcam'' | Some m \<Rightarrow> m)
          in if cam_method \<notin> set [''gradcam'', ''gradcam++'', ''scorecam'']
             then (BadRequest ''Invalid CAM method'', st)
             else (case predict e file cam_method uuid flt st of
                     (Inl err, st') \<Rightarrow> (ServerError err, st')
                   | (Inr results, st') \<Rightarrow> (Results results, st')))"

section \<open>The formulas of the specification\<close>

text \<open>
  The CAM formulas as the specification words them, position by position, to be compared
  with the loops of the code. \<open>spec_combine\<close> is the ReLU of the weighted sum of the
  activation channels; \<open>spec_minmax\<close> is the min-max normalisation with the guarded
  denominator, which leaves a map whose maximum equals its minimum as it is.
\<close>

definition spec_combine :: "real list \<Rightarrow> tensor \<Rightarrow> plane" where
  "spec_combine ws a =
     map (\<lambda>y. map (\<lambda>x. relu (\<Sum>c<length ws. ws ! c * chans a ! c ! y ! x))
                 [0..<shape_w a]) [0..<shape_h a]"

definition spec_minmax :: "plane \<Rightarrow> plane" where
  "spec_minmax m =
     (let lo = Min (set (concat m)); hi = Max (set (concat m))
      in if hi = lo then m else map (map (\<lambda>v. (v - lo) / (hi - lo + eps))) m)"

definition spec_gradcam_weight :: "plane \<Rightarrow> real" where
  "spec_gradcam_weight g = sum_list (map relu (concat g)) / real (length (concat g))"

definition spec_alpha :: "plane \<Rightarrow> plane \<Rightarrow> nat \<Rightarrow> nat \<Rightarrow> real" where
  "spec_alpha a g y x =
     (g ! y ! x) ^ 2 /
       (2 * (g ! y ! x) ^ 2
        + (\<Sum>i<length g. \<Sum>j<length (g ! i). a ! i ! j * (g ! i ! j) ^ 3) + eps)"

definition spec_gradcampp_weight :: "plane \<Rightarrow> plane \<Rightarrow> real" where
  "spec_gradcampp_weight a g =
     (\<Sum>y<length g. \<Sum>x<length (g ! y). spec_alpha a g y x * relu (g ! y ! x))"

subsection \<open>Successive heatmap requests\<close>

text \<open>
  The state of the shared model after a sequence of calls of \<open>generate_heatmap\<close>, each
  with its input tensor, class index and method name.
\<close>

fun heatmap_calls ::
  "network \<Rightarrow> (tensor \<times> nat \<times> string) list \<Rightarrow> torch_state \<Rightarrow> torch_state" where
  "heatmap_calls nw [] st = st"
| "heatmap_calls nw ((x, c, m) # rest) st =
     heatmap_calls nw rest (snd (generate_heatmap nw x c m st))"

section \<open>Example inputs\<close>

text \<open>
  Small concrete inputs on which the definitions are evaluated. \<open>fresh_torch\<close> is the
  shared model as \<open>ChestXrayService.__init__\<close> leaves it: no CAM object, no hook.
\<close>

definition fresh_torch :: torch_state where
  "fresh_torch = \<lparr>objects = [], forward_hooks = [], backward_hooks = [],
     forward_passes = 0, backward_passes = 0, hook_calls = 0\<rparr>"

definition ramp_acts :: tensor where
  "ramp_acts = \<lparr>shape_h = 1, shape_w = 2, chans = [[[1, 3]]]\<rparr>"

definition ones_grads :: tensor where
  "ones_grads = \<lparr>shape_h = 1, shape_w = 2, chans = [[[1, 1]]]\<rparr>"

definition flat_acts :: tensor where
  "flat_acts = \<lparr>shape_h = 1, shape_w = 1, chans = [[[2]]]\<rparr>"

definition unit_grads :: tensor where
  "unit_grads = \<lparr>shape_h = 1, shape_w = 1, chans = [[[1]]]\<rparr>"

definition flat_network :: network where
  "flat_network = \<lparr>net_logits = (\<lambda>x. [0, 0]),
     net_features = (\<lambda>x. \<lparr>shape_h = 1, shape_w = 2, chans = [[[3, 3]]]\<rparr>),
     net_grad = (\<lambda>x c. \<lparr>shape_h = 1, shape_w = 2, chans = [[[1, 1]]]\<rparr>)\<rparr>"

definition unit_input :: tensor where
  "unit_input = \<lparr>shape_h = 1, shape_w = 2, chans = [[[1, 1]]]\<rparr>"

definition ramp_network :: network where
  "ramp_network = \<lparr>net_logits = (\<lambda>x. [0, 0]),
     net_features = (\<lambda>x. ramp_acts), net_grad = (\<lambda>x c. ones_grads)\<rparr>"

definition pair_network :: network where
  "pair_network = \<lparr>net_logits = (\<lambda>x. [0, 0]),
     net_features = (\<lambda>x. \<lparr>shape_h = 1, shape_w = 2, chans = [[[1, 3]], [[4, 4]]]\<rparr>),
     net_grad = (\<lambda>x c. \<lparr>shape_h = 1, shape_w = 2, chans = [[[1, 1]], [[1, 1]]]\<rparr>)\<rparr>"

definition fresh_service :: service_state where
  "fresh_service = \<lparr>torch = fresh_torch, redis = Map.empty, result_dir = Map.empty\<rparr>"

definition demo_config :: config where
  "demo_config = \<lparr>NUM_CLASSES = 2, DISEASE_LABELS = [''Atelectasis'', ''Cardiomegaly''],
     ALLOWED_EXTENSIONS = {''png'', ''jpg'', ''jpeg''}\<rparr>"

definition demo_image :: image where
  "demo_image = \<lparr>im_width = 1, im_height = 1, im_rows = [[(10, 20, 30)]]\<rparr>"

definition demo_env :: env where
  "demo_env = \<lparr>cfg = demo_config, model = ramp_network, optimal_thresholds = [1 / 4, 1 / 2],
     md5_hexdigest = (\<lambda>bs. replicate (length bs) CHR ''0''),
     image_open = (\<lambda>bs. Some demo_image),
     transform = (\<lambda>im. unit_input),
     colormap_jet = (\<lambda>v. (v, 0, 255 - v)),
     secure_filename = (\<lambda>n. n)\<rparr>"

definition demo_file :: upload where
  "demo_file = \<lparr>up_filename = ''a.png'', up_content = [1, 2, 3]\<rparr>"

definition no_faults :: faults where
  "no_faults = \<lparr>on_read = NoFault, set_raises = False\<rparr>"

definition renamed_file :: upload where
  "renamed_file = \<lparr>up_filename = ''b.JPG'', up_content = [1, 2, 3]\<rparr>"


definition demo_result :: prediction_result where
  "demo_result =
     \<lparr>r_predictions = [(''Atelectasis'', \<lparr>positive = True, probability = 1 / 2\<rparr>),
        (''Cardiomegaly'', \<lparr>positive = False, probability = 1 / 2\<rparr>)],
      r_heatmap_path = ''heatmap_gradcam_u1_a.png'',
      r_superimposed_path = ''superimposed_gradcam_u1_a.png'',
      r_cam_method = ''gradcam'', r_original_size = (1, 1),
      r_model_input_size = (512, 512)\<rparr>"

section \<open>Evaluating the rounding\<close>


lemma fl_round_scaled:
  assumes x: "0 < x" and lo: "2 ^ (p - 1) \<le> x * 2 ^ k" and hi: "x * 2 ^ k < 2 ^ p"
    and p: "0 < p" and sub: "emin \<le> int p - 1 - int k"
  shows "fl_round p emin x = of_int (round_half_even (x * 2 ^ k)) / 2 ^ k"
proof -
  let ?e = "int p - 1 - int k"
  have pk: "(2::real) powr (of_int ?e) = 2 ^ (p - 1) / 2 ^ k"
  proof -
    have "(2::real) powr (of_int ?e) = 2 powr (real (p - 1) - real k)"
      using p by (simp add: of_nat_diff)
    also have "\<dots> = 2 powr real (p - 1) / 2 powr real k" by (simp add: powr_diff)
    also have "\<dots> = 2 ^ (p - 1) / 2 ^ k" by (simp add: powr_realpow)
    finally show ?thesis .
  qed
  have pk1: "(2::real) powr (of_int (?e + 1)) = 2 ^ p / 2 ^ k"
  proof -
    have "(2::real) powr (of_int (?e + 1)) = 2 powr (real p - real k)" by simp
    also have "\<dots> = 2 powr real p / 2 powr real k" by (simp add: powr_diff)
    also have "\<dots> = 2 ^ p / 2 ^ k" by (simp add: powr_realpow)
    finally show ?thesis .
  qed
  have "2 powr (of_int ?e) \<le> x \<and> x < 2 powr (of_int (?e + 1))"
    unfolding pk pk1 using lo hi by (simp add: field_simps)
  then have "\<lfloor>log 2 x\<rfloor> = ?e"
    using x floor_log_eq_powr_iff[of x 2 ?e] by simp
  then have e: "max \<lfloor>log 2 \<bar>x\<bar>\<rfloor> emin = ?e" using x sub by simp
  have u: "(2::real) powr (of_int ?e - real p + 1) = 1 / 2 ^ k"
  proof -
    have "of_int ?e - real p + 1 = - real k" by simp
    then have "(2::real) powr (of_int ?e - real p + 1) = 2 powr (- real k)" by simp
    also have "\<dots> = 1 / 2 ^ k" by (simp add: powr_minus powr_realpow divide_inverse)
    finally show ?thesis .
  qed
  show ?thesis using x unfolding fl_round_def e Let_def u by simp
qed






lemma float32_quarter: "float32 (1 / 4) = 1 / 4"
  unfolding float32_def
  by (subst fl_round_scaled[where k = 25]) (simp_all add: round_half_even_def)

lemma float32_half: "float32 (1 / 2) = 1 / 2"
  unfolding float32_def
  by (subst fl_round_scaled[where k = 24]) (simp_all add: round_half_even_def)

lemma float32_three_tenths: "float32 (3 / 10) = 10066330 / 33554432"
  unfolding float32_def
  by (subst fl_round_scaled[where k = 25]) (simp_all add: round_half_even_def)

section \<open>Shapes and tables\<close>

text \<open>
  A plane of shape \<open>h \<times> w\<close> is the table of its entries, and the element-wise
  operations of the code give tables again.
\<close>

lemma plane_shaped_tab: "plane_shaped h w (map (\<lambda>y. map (\<lambda>x. f y x) [0..<w]) [0..<h])"
  by (simp add: plane_shaped_def list_all_iff)

lemma plane_tab_id:
  "plane_shaped h w p \<Longrightarrow> map (\<lambda>y. map (\<lambda>x. p ! y ! x) [0..<w]) [0..<h] = p"
  by (auto simp: plane_shaped_def list_all_iff intro!: nth_equalityI)

lemma map2_tab:
  assumes "plane_shaped h w p" "plane_shaped h w q"
  shows "map2 (\<lambda>pr qr. map2 f pr qr) p q
     = map (\<lambda>y. map (\<lambda>x. f (p ! y ! x) (q ! y ! x)) [0..<w]) [0..<h]"
  using assms
  by (auto simp: plane_shaped_def list_all_iff intro!: nth_equalityI)

lemma map_tab:
  assumes "plane_shaped h w p"
  shows "map (map f) p = map (\<lambda>y. map (\<lambda>x. f (p ! y ! x)) [0..<w]) [0..<h]"
  using assms
  by (auto simp: plane_shaped_def list_all_iff intro!: nth_equalityI)

lemma plane_axpy_nth:
  assumes "plane_shaped h w cam" "plane_shaped h w a"
  shows "plane_axpy cam v a
     = map (\<lambda>y. map (\<lambda>x. cam ! y ! x + v * a ! y ! x) [0..<w]) [0..<h]"
  unfolding plane_axpy_def by (rule map2_tab[OF assms])

lemma torch_sum_nth:
  "torch_sum p = (\<Sum>y<length p. \<Sum>x<length (p ! y). p ! y ! x)"
  by (simp add: torch_sum_def sum_list_sum_nth atLeast0LessThan)

lemma torch_sum_tab:
  "torch_sum (map (\<lambda>y. map (\<lambda>x. f y x) [0..<w]) [0..<h]) = (\<Sum>y<h. \<Sum>x<w. f y x)"
  by (simp add: torch_sum_nth)

lemma F_relu_tab:
  "F_relu (map (\<lambda>y. map (\<lambda>x. f y x) [0..<w]) [0..<h])
     = map (\<lambda>y. map (\<lambda>x. relu (f y x)) [0..<w]) [0..<h]"
  by (simp add: F_relu_def comp_def)

lemma torch_zeros_shaped: "plane_shaped h w (torch_zeros h w)"
  by (simp add: torch_zeros_def plane_shaped_def list_all_iff)

lemma torch_zeros_nth: "y < h \<Longrightarrow> x < w \<Longrightarrow> torch_zeros h w ! y ! x = 0"
  by (simp add: torch_zeros_def)

lemma concat_tab_nonempty:
  "0 < h \<Longrightarrow> 0 < w \<Longrightarrow> concat (map (\<lambda>y. map (\<lambda>x. f y x) [0..<w]) [0..<h]) \<noteq> []"
  by (auto simp: concat_eq_Nil_conv)

lemma sum_list_concat_rows:
  "sum_list (concat xss) = sum_list (map sum_list (xss :: real list list))"
  by (induction xss) simp_all

section \<open>The channel loop and the post-processing\<close>

text \<open>
  The loop over the weights adds, at every position, the weighted activations of the
  channels it visits to what the buffer held.
\<close>

lemma cam_loop_closed:
  assumes "plane_shaped h w cam" "list_all (plane_shaped h w) acts"
    "i + length ws \<le> length acts"
  shows "cam_loop i ws acts cam =
     Inr (map (\<lambda>y. map (\<lambda>x. cam ! y ! x + (\<Sum>j<length ws. ws ! j * acts ! (i + j) ! y ! x))
                  [0..<w]) [0..<h])"
  using assms
proof (induction ws arbitrary: i cam)
  case Nil
  then show ?case by (simp add: plane_tab_id)
next
  case (Cons v ws)
  have a: "plane_shaped h w (acts ! i)"
    using Cons.prems by (simp add: list_all_length)
  have eq: "plane_axpy cam v (acts ! i)
      = map (\<lambda>y. map (\<lambda>x. cam ! y ! x + v * acts ! i ! y ! x) [0..<w]) [0..<h]"
    using plane_axpy_nth[OF Cons.prems(1) a] .
  have sh: "plane_shaped h w (plane_axpy cam v (acts ! i))"
    unfolding eq by (rule plane_shaped_tab)
  have step: "cam_loop (Suc i) ws acts (plane_axpy cam v (acts ! i)) =
     Inr (map (\<lambda>y. map (\<lambda>x. plane_axpy cam v (acts ! i) ! y ! x
                  + (\<Sum>j<length ws. ws ! j * acts ! (Suc i + j) ! y ! x))
                  [0..<w]) [0..<h])"
    using Cons.IH[OF sh Cons.prems(2)] Cons.prems(3) by simp
  have pt: "plane_axpy cam v (acts ! i) ! y ! x
       + (\<Sum>j<length ws. ws ! j * acts ! (Suc i + j) ! y ! x)
     = cam ! y ! x + (\<Sum>j<length (v # ws). (v # ws) ! j * acts ! (i + j) ! y ! x)"
    if "y < h" "x < w" for y x
    using that by (simp add: eq sum.lessThan_Suc_shift add.assoc del: sum.lessThan_Suc)
  have "i < length acts" using Cons.prems(3) by simp
  then have "cam_loop i (v # ws) acts cam
      = cam_loop (Suc i) ws acts (plane_axpy cam v (acts ! i))"
    by simp
  also have "\<dots> = Inr (map (\<lambda>y. map (\<lambda>x. cam ! y ! x
      + (\<Sum>j<length (v # ws). (v # ws) ! j * acts ! (i + j) ! y ! x)) [0..<w]) [0..<h])"
    unfolding step using pt by simp
  finally show ?case .
qed

lemma weighted_cam_spec:
  assumes "well_shaped a" "length ws = length (chans a)"
  shows "cam_loop 0 ws (chans a) (torch_zeros (shape_h a) (shape_w a)) =
      Inr (map (\<lambda>y. map (\<lambda>x. (\<Sum>c<length ws. ws ! c * chans a ! c ! y ! x))
                   [0..<shape_w a]) [0..<shape_h a])"
proof -
  have "cam_loop 0 ws (chans a) (torch_zeros (shape_h a) (shape_w a)) =
     Inr (map (\<lambda>y. map (\<lambda>x. torch_zeros (shape_h a) (shape_w a) ! y ! x
                  + (\<Sum>j<length ws. ws ! j * chans a ! (0 + j) ! y ! x))
                  [0..<shape_w a]) [0..<shape_h a])"
    using assms by (intro cam_loop_closed torch_zeros_shaped) (simp_all add: well_shaped_def)
  then show ?thesis by (simp add: torch_zeros_nth)
qed

text \<open>
  On a map with at least one entry, the post-processing is the ReLU followed by
  \<open>spec_minmax\<close>: the test \<open>cam_max > cam_min\<close> fails exactly when the two are equal.
\<close>

lemma postprocess_spec:
  assumes "concat (F_relu cam) \<noteq> []"
  shows "postprocess cam = Inr (spec_minmax (F_relu cam))"
proof -
  let ?s = "set (concat (F_relu cam))"
  have fin: "finite ?s" and ne: "?s \<noteq> {}" using assms by auto
  have "Min ?s \<le> Max ?s" by (rule Min_le[OF fin Max_in[OF fin ne]])
  then have "(Max ?s > Min ?s) = (Max ?s \<noteq> Min ?s)" by auto
  then show ?thesis using assms
    by (simp add: postprocess_def spec_minmax_def Let_def)
qed

lemma combine_postprocess:
  assumes "well_shaped a" "length ws = length (chans a)" "0 < shape_h a" "0 < shape_w a"
  shows "(case cam_loop 0 ws (chans a) (torch_zeros (shape_h a) (shape_w a)) of
           Inl e \<Rightarrow> Inl e | Inr cam \<Rightarrow> postprocess cam)
         = Inr (spec_minmax (spec_combine ws a))"
proof -
  let ?t = "map (\<lambda>y. map (\<lambda>x. (\<Sum>c<length ws. ws ! c * chans a ! c ! y ! x))
                   [0..<shape_w a]) [0..<shape_h a]"
  have r: "F_relu ?t = spec_combine ws a"
    unfolding spec_combine_def by (rule F_relu_tab)
  have ne: "concat (F_relu ?t) \<noteq> []"
    unfolding F_relu_tab using assms(3,4) by (rule concat_tab_nonempty)
  show ?thesis
    unfolding weighted_cam_spec[OF assms(1,2)] using postprocess_spec[OF ne] r by simp
qed

section \<open>GradCAM\<close>

lemma relu_mean_flat: "torch_mean (F_relu p) = spec_gradcam_weight p"
proof -
  have "concat (F_relu p) = map relu (concat p)"
    by (simp add: F_relu_def map_concat)
  then show ?thesis
    by (simp add: torch_mean_def torch_sum_def spec_gradcam_weight_def
        flip: sum_list_concat_rows)
qed

lemma gradcam_weights_spec: "gradcam_weights g = map spec_gradcam_weight (chans g)"
  by (simp add: gradcam_weights_def relu_mean_flat)

lemmas cam_eval = gradcam_compute_def gradcam_weights_def torch_mean_def torch_sum_def
  F_relu_def relu_def torch_zeros_def plane_axpy_def postprocess_def eps_def
  numeral_2_eq_2

lemmas spec_eval = spec_minmax_def spec_combine_def spec_gradcam_weight_def relu_def eps_def

text \<open>
  Claim C2, as the code has it. For an activation tensor of shape \<open>[C, H, W]\<close> with
  \<open>H, W > 0\<close> and a gradient tensor with as many channels, GradCAM returns the min-max
  normalisation (denominator \<open>max - min + 1e-8\<close>) of the ReLU of the sum over the
  channels of weight times activation, where the weight of a channel is the spatial mean
  of the ReLU of its gradient. When the maximum of that map equals its minimum, the map
  is returned as it is, not replaced by zeros.
\<close>

theorem gradcam_formula:
  assumes "well_shaped a" "length (chans g) = length (chans a)"
    "0 < shape_h a" "0 < shape_w a"
  shows "gradcam_compute a g
     = Inr (spec_minmax (spec_combine (map spec_gradcam_weight (chans g)) a))"
  using combine_postprocess[OF assms(1) _ assms(3,4), of "map spec_gradcam_weight (chans g)"]
    assms(2)
  by (simp add: gradcam_compute_def gradcam_weights_spec)

theorem gradcam_formula_witness:
  "well_shaped ramp_acts \<and> length (chans ones_grads) = length (chans ramp_acts)
   \<and> 0 < shape_h ramp_acts \<and> 0 < shape_w ramp_acts
   \<and> spec_minmax (spec_combine (map spec_gradcam_weight (chans ones_grads)) ramp_acts)
       = [[0, 200000000 / 200000001]]
   \<and> gradcam_compute ramp_acts ones_grads = Inr [[0, 200000000 / 200000001]]"
proof -
  have h: "well_shaped ramp_acts" "length (chans ones_grads) = length (chans ramp_acts)"
    "0 < shape_h ramp_acts" "0 < shape_w ramp_acts"
    by (simp_all add: ramp_acts_def ones_grads_def well_shaped_def plane_shaped_def)
  have v: "spec_minmax (spec_combine (map spec_gradcam_weight (chans ones_grads)) ramp_acts)
       = [[0, 200000000 / 200000001]]"
    by (simp add: ramp_acts_def ones_grads_def spec_eval eval_nat_numeral)
  show ?thesis using h v gradcam_formula[OF h] by simp
qed

text \<open>
  The claim as the specification words it fails on a constant map: one channel with the
  single activation 2 and the gradient 1 gives the map \<open>[[2]]\<close>, whose maximum equals
  its minimum, and GradCAM returns \<open>[[2]]\<close>, not the all-zero map.
\<close>

theorem gradcam_flat_counterexample:
  "gradcam_compute flat_acts unit_grads = Inr [[2]]
   \<and> Max (set (concat [[2 :: real]])) = Min (set (concat [[2 :: real]]))
   \<and> [[2 :: real]] \<noteq> torch_zeros 1 1"
  by (simp add: flat_acts_def unit_grads_def cam_eval)

section \<open>GradCAM++\<close>

lemma gradcampp_weight_spec:
  assumes a: "plane_shaped h w a" and g: "plane_shaped h w g"
  shows "torch_sum (plane_mul (gradcampp_alpha a g) (F_relu g)) = spec_gradcampp_weight a g"
proof -
  have lg: "length g = h" and lr: "\<And>y. y < h \<Longrightarrow> length (g ! y) = w"
    using g by (auto simp: plane_shaped_def list_all_length)
  have cube: "map (map (\<lambda>x. x ^ 3)) g
      = map (\<lambda>y. map (\<lambda>x. (g ! y ! x) ^ 3) [0..<w]) [0..<h]"
    by (rule map_tab[OF g])
  have s: "torch_sum (plane_mul a (map (map (\<lambda>x. x ^ 3)) g))
      = (\<Sum>i<length g. \<Sum>j<length (g ! i). a ! i ! j * (g ! i ! j) ^ 3)"
    unfolding plane_mul_def cube map2_tab[OF a plane_shaped_tab] torch_sum_tab
    by (simp add: lg lr)
  have alpha: "gradcampp_alpha a g
      = map (\<lambda>y. map (\<lambda>x. spec_alpha a g y x) [0..<w]) [0..<h]"
    unfolding gradcampp_alpha_def Let_def s map_tab[OF g, of "\<lambda>x. x ^ 2"]
      map_tab[OF g, of "\<lambda>x. 2 * x ^ 2 + t" for t]
      map2_tab[OF plane_shaped_tab plane_shaped_tab]
    by (simp add: spec_alpha_def)
  show ?thesis
    unfolding alpha F_relu_def plane_mul_def map_tab[OF g, of relu]
      map2_tab[OF plane_shaped_tab plane_shaped_tab] torch_sum_tab
    by (simp add: spec_gradcampp_weight_def lg lr)
qed

lemma gradcampp_weights_spec:
  assumes "well_shaped a" "well_shaped g" "same_shape a g"
  shows "gradcampp_weights a g = map2 spec_gradcampp_weight (chans a) (chans g)"
proof -
  have "torch_sum (plane_mul (gradcampp_alpha p q) (F_relu q)) = spec_gradcampp_weight p q"
    if "(p, q) \<in> set (zip (chans a) (chans g))" for p q
  proof -
    have "p \<in> set (chans a)" "q \<in> set (chans g)"
      using that by (auto dest: set_zip_leftD set_zip_rightD)
    then have "plane_shaped (shape_h a) (shape_w a) p" "plane_shaped (shape_h a) (shape_w a) q"
      using assms by (auto simp: well_shaped_def same_shape_def list_all_iff)
    then show ?thesis by (rule gradcampp_weight_spec)
  qed
  then show ?thesis by (auto simp: gradcampp_weights_def)
qed

text \<open>
  Claim C5. For activation and gradient tensors of one shape \<open>[C, H, W]\<close> with
  \<open>H, W > 0\<close>, GradCAM++ returns \<open>spec_minmax\<close> of \<open>spec_combine\<close> (the ReLU and the
  guarded min-max normalisation that GradCAM applies) of the
  activations under the weights \<open>spec_gradcampp_weight\<close>: the spatial sum of alpha times
  the ReLU of the gradient, with alpha the squared gradient over twice the squared
  gradient plus the spatial sum of activation times cubed gradient plus \<open>1e-8\<close>. Division
  is that of the real numbers; a denominator of exactly zero is outside what real
  arithmetic says about the floating-point code.
\<close>

theorem gradcampp_formula:
  assumes "well_shaped a" "well_shaped g" "same_shape a g" "0 < shape_h a" "0 < shape_w a"
  shows "gradcampp_compute a g
     = Inr (spec_minmax (spec_combine (map2 spec_gradcampp_weight (chans a) (chans g)) a))"
proof -
  have len: "length (map2 spec_gradcampp_weight (chans a) (chans g)) = length (chans a)"
    using assms(3) by (simp add: same_shape_def)
  show ?thesis
    using combine_postprocess[OF assms(1) len assms(4,5)] assms(3)
    by (simp add: gradcampp_compute_def gradcampp_weights_spec[OF assms(1,2,3)])
qed

theorem gradcampp_formula_witness:
  "well_shaped ramp_acts \<and> well_shaped ones_grads \<and> same_shape ramp_acts ones_grads
   \<and> 0 < shape_h ramp_acts \<and> 0 < shape_w ramp_acts
   \<and> spec_minmax (spec_combine
         (map2 spec_gradcampp_weight (chans ramp_acts) (chans ones_grads)) ramp_acts)
       = [[0, 40000000000000000 / 40000000600000001]]
   \<and> gradcampp_compute ramp_acts ones_grads
       = Inr [[0, 40000000000000000 / 40000000600000001]]"
proof -
  have h: "well_shaped ramp_acts" "well_shaped ones_grads" "same_shape ramp_acts ones_grads"
    "0 < shape_h ramp_acts" "0 < shape_w ramp_acts"
    by (simp_all add: ramp_acts_def ones_grads_def well_shaped_def plane_shaped_def
        same_shape_def)
  have v: "spec_minmax (spec_combine
         (map2 spec_gradcampp_weight (chans ramp_acts) (chans ones_grads)) ramp_acts)
       = [[0, 40000000000000000 / 40000000600000001]]"
    by (simp add: ramp_acts_def ones_grads_def spec_eval spec_gradcampp_weight_def
        spec_alpha_def eval_nat_numeral)
  show ?thesis using h v gradcampp_formula[OF h] by simp
qed

section \<open>The range of a returned saliency map\<close>









section \<open>Hooks and passes\<close>

lemma fold_forward_hook_length: "length (fold (forward_hook out) hs objs) = length objs"
  by (induction hs arbitrary: objs) (simp_all add: forward_hook_def)

lemma fold_forward_hook_nth:
  "i < length objs \<Longrightarrow>
     activations (fold (forward_hook out) hs objs ! i)
       = activations (objs ! i) @ replicate (count_list hs i) out
     \<and> gradients (fold (forward_hook out) hs objs ! i) = gradients (objs ! i)"
proof (induction hs arbitrary: objs)
  case Nil
  then show ?case by simp
next
  case (Cons h hs)
  have len: "i < length (forward_hook out h objs)" using Cons.prems by (simp add: forward_hook_def)
  show ?case using Cons.IH[OF len] Cons.prems
    by (cases "h = i") (auto simp: forward_hook_def replicate_app_Cons_same)
qed

lemma model_call_counts:
  "model_call nw x st = (out, st') \<Longrightarrow>
     forward_passes st' = forward_passes st + 1 \<and> backward_passes st' = backward_passes st
     \<and> forward_hooks st' = forward_hooks st \<and> backward_hooks st' = backward_hooks st
     \<and> length (objects st') = length (objects st)"
  by (auto simp: model_call_def fold_forward_hook_length)

lemma scorecam_loop_counts:
  "scorecam_loop nw x targets acts imp idxs cam st = (res, st') \<Longrightarrow>
     backward_passes st' = backward_passes st
     \<and> forward_passes st' \<le> forward_passes st + length idxs
     \<and> ((\<exists>r. res = Inr r) \<longrightarrow> forward_passes st' = forward_passes st + length idxs)
     \<and> forward_hooks st' = forward_hooks st \<and> backward_hooks st' = backward_hooks st
     \<and> length (objects st') = length (objects st)"
proof (induction idxs arbitrary: cam st)
  case Nil
  then show ?case by auto
next
  case (Cons i idxs)
  obtain out st1 where mc: "model_call nw (x\<lparr>chans := map (\<lambda>c. plane_mul c (F_softmax
       (bilinear_resize (shape_h acts) (shape_w acts) (chans acts ! i) (shape_h x) (shape_w x)))) (chans x)\<rparr>) st = (out, st1)"
    by (cases "model_call nw (x\<lparr>chans := map (\<lambda>c. plane_mul c (F_softmax
       (bilinear_resize (shape_h acts) (shape_w acts) (chans acts ! i) (shape_h x) (shape_w x)))) (chans x)\<rparr>) st")
  note c1 = model_call_counts[OF mc]
  show ?case
  proof (cases "case targets of
                 Some c \<Rightarrow> if c < length out then Inr (out ! c) else Inl IndexError
               | None \<Rightarrow> if out = [] then Inl RuntimeError else Inr (Max (set out))")
    case (Inl e)
    then have "res = Inl e" "st' = st1" using Cons.prems mc by (simp_all add: Let_def)
    then show ?thesis using c1 by auto
  next
    case (Inr score)
    then have "scorecam_loop nw x targets acts imp idxs
        (map2 (\<lambda>cr ur. map2 (\<lambda>c u. c + score * u * imp ! i) cr ur) cam (F_softmax
       (bilinear_resize (shape_h acts) (shape_w acts) (chans acts ! i) (shape_h x) (shape_w x)))) st1 = (res, st')"
      using Cons.prems mc by (simp add: Let_def)
    from Cons.IH[OF this] show ?thesis using c1 by auto
  qed
qed

lemma torch_topk_length: "length (torch_topk v k) = min k (length v)"
  by (simp add: torch_topk_def)

lemma get_ag_first:
  assumes "self < length (objects st)" "self \<in> set (forward_hooks st)"
    and "get_activations_gradients nw self x st = (out, st1)"
  shows "\<exists>rest. activations (objects st1 ! self) = net_features nw x # rest"
proof -
  have "count_list (forward_hooks st) self \<noteq> 0" using assms(2) by (simp add: count_list_0_iff)
  then obtain n where n: "count_list (forward_hooks st) self = Suc n" by (cases "count_list (forward_hooks st) self") auto
  have "activations (objects st1 ! self) = replicate (Suc n) (net_features nw x)"
    using assms(1,3) fold_forward_hook_nth[of self "(objects st)[self := \<lparr>activations = [], gradients = []\<rparr>]" "net_features nw x" "forward_hooks st"]
    by (auto simp: get_activations_gradients_def model_call_def n)
  then show ?thesis by simp
qed

lemma scorecam_counts:
  assumes "self < length (objects st)" "self \<in> set (forward_hooks st)"
    and "ScoreCAM_call nw self x targets st = (res, st')"
  shows "backward_passes st' = backward_passes st
     \<and> forward_passes st' \<le> forward_passes st + 1 + min 64 (length (chans (net_features nw x)))
     \<and> ((\<exists>r. res = Inr r) \<longrightarrow>
          forward_passes st' = forward_passes st + 1 + min 64 (length (chans (net_features nw x))))"
proof -
  obtain out st1 where g: "get_activations_gradients nw self x st = (out, st1)"
    by (cases "get_activations_gradients nw self x st")
  from get_ag_first[OF assms(1,2) g] obtain rest where
    a: "activations (objects st1 ! self) = net_features nw x # rest" by blast
  have c1: "forward_passes st1 = forward_passes st + 1" "backward_passes st1 = backward_passes st"
    using g by (auto simp: get_activations_gradients_def model_call_def)
  let ?a = "net_features nw x"
  show ?thesis
  proof (cases "shape_h ?a = 0 \<or> shape_w ?a = 0 \<or> shape_h x = 0 \<or> shape_w x = 0")
    case True
    then have "res = Inl RuntimeError" "st' = st1"
      using assms(3) g a by (auto simp: ScoreCAM_call_def Let_def)
    then show ?thesis using c1 by auto
  next
    case False
    let ?acts = "?a\<lparr>chans := map F_relu (chans ?a)\<rparr>"
    let ?imp = "map torch_mean (chans ?acts)"
    let ?idx = "torch_topk ?imp (min 64 (length (chans ?acts)))"
    obtain r2 st2 where l: "scorecam_loop nw x targets ?acts ?imp ?idx (torch_zeros (shape_h x) (shape_w x)) st1 = (r2, st2)"
      by (cases "scorecam_loop nw x targets ?acts ?imp ?idx (torch_zeros (shape_h x) (shape_w x)) st1")
    have len: "length ?idx = min 64 (length (chans ?a))" by (simp add: torch_topk_length)
    have st': "st' = st2" and res: "(\<exists>r. res = Inr r) \<longrightarrow> (\<exists>r. r2 = Inr r)"
      using assms(3) g a False l by (auto simp: ScoreCAM_call_def Let_def split: sum.splits)
    show ?thesis using scorecam_loop_counts[OF l] c1 res unfolding st' len by auto
  qed
qed


lemma fold_backward_hook_length: "length (fold (backward_hook out) hs objs) = length objs"
  by (induction hs arbitrary: objs) (simp_all add: backward_hook_def)

lemma backward_frame:
  "forward_hooks (backward nw x c st) = forward_hooks st
   \<and> backward_hooks (backward nw x c st) = backward_hooks st
   \<and> length (objects (backward nw x c st)) = length (objects st)
   \<and> forward_passes (backward nw x c st) = forward_passes st"
  by (simp add: backward_def fold_backward_hook_length)

lemma get_ag_frame:
  "get_activations_gradients nw self x st = (out, st') \<Longrightarrow>
     forward_hooks st' = forward_hooks st \<and> backward_hooks st' = backward_hooks st
     \<and> length (objects st') = length (objects st)"
  by (auto simp: get_activations_gradients_def model_call_def fold_forward_hook_length)

lemma capture_frame:
  assumes "capture nw self x targets st = (res, st')"
  shows "forward_hooks st' = forward_hooks st \<and> backward_hooks st' = backward_hooks st
     \<and> length (objects st') = length (objects st)"
proof -
  obtain out st1 where g: "get_activations_gradients nw self x st = (out, st1)"
    by (cases "get_activations_gradients nw self x st")
  have "st' = st1 \<or> (\<exists>c. st' = backward nw x c st1)"
    using assms g by (auto simp: capture_def split: option.splits if_splits list.splits)
  then show ?thesis using get_ag_frame[OF g] backward_frame by auto
qed

lemma scorecam_frame:
  assumes "ScoreCAM_call nw self x targets st = (res, st')"
  shows "forward_hooks st' = forward_hooks st \<and> backward_hooks st' = backward_hooks st
     \<and> length (objects st') = length (objects st)"
proof -
  obtain out st1 where g: "get_activations_gradients nw self x st = (out, st1)"
    by (cases "get_activations_gradients nw self x st")
  have "st' = st1 \<or> (\<exists>acts imp idxs cam r. scorecam_loop nw x targets acts imp idxs cam st1 = (r, st'))"
    using assms g by (auto simp: ScoreCAM_call_def Let_def split: list.splits if_splits prod.splits sum.splits)
  then show ?thesis using get_ag_frame[OF g] by (auto dest!: scorecam_loop_counts)
qed

lemma generate_heatmap_hooks:
  assumes "cam_classes m = Some cls" "generate_heatmap nw x c m st = (res, st')"
  shows "forward_hooks st' = forward_hooks st @ [length (objects st)]
     \<and> backward_hooks st' = backward_hooks st @ [length (objects st)]
     \<and> length (objects st') = Suc (length (objects st))"
proof -
  let ?self = "length (objects st)"
  let ?st1 = "st\<lparr>objects := objects st @ [\<lparr>activations = [], gradients = []\<rparr>],
          forward_hooks := forward_hooks st @ [?self],
          backward_hooks := backward_hooks st @ [?self]\<rparr>"
  have i: "CAMBase_init st = (?self, ?st1)" by (simp add: CAMBase_init_def Let_def)
  have s1: "forward_hooks ?st1 = forward_hooks st @ [?self]" "backward_hooks ?st1 = backward_hooks st @ [?self]"
    "length (objects ?st1) = Suc ?self" by simp_all
  have "GradCAM_call nw ?self x (Some c) ?st1 = (res, st') \<or> GradCAMPlusPlus_call nw ?self x (Some c) ?st1 = (res, st')
    \<or> ScoreCAM_call nw ?self x (Some c) ?st1 = (res, st')"
    using assms i by (cases cls) (simp_all add: generate_heatmap_def)
  then have "forward_hooks st' = forward_hooks ?st1 \<and> backward_hooks st' = backward_hooks ?st1
     \<and> length (objects st') = length (objects ?st1)"
    by (auto simp: GradCAM_call_def GradCAMPlusPlus_call_def split: prod.splits sum.splits
        dest: capture_frame scorecam_frame)
  then show ?thesis using s1 by simp
qed

lemma heatmap_calls_hooks:
  assumes "list_all (\<lambda>(x, c, m). cam_classes m \<noteq> None) calls"
    and "forward_hooks st = [0..<length (objects st)]" "backward_hooks st = [0..<length (objects st)]"
  shows "forward_hooks (heatmap_calls nw calls st) = [0..<length (objects st) + length calls]
    \<and> backward_hooks (heatmap_calls nw calls st) = [0..<length (objects st) + length calls]
    \<and> length (objects (heatmap_calls nw calls st)) = length (objects st) + length calls"
  using assms
proof (induction calls arbitrary: st)
  case Nil
  then show ?case by simp
next
  case (Cons call calls)
  obtain x c m where call: "call = (x, c, m)" by (cases call)
  obtain cls where cls: "cam_classes m = Some cls" using Cons.prems(1) call by auto
  obtain res st1 where g: "generate_heatmap nw x c m st = (res, st1)" by (cases "generate_heatmap nw x c m st")
  note h = generate_heatmap_hooks[OF cls g]
  have a: "forward_hooks st1 = [0..<length (objects st1)]" "backward_hooks st1 = [0..<length (objects st1)]"
    using h Cons.prems(2,3) by simp_all
  have r: "list_all (\<lambda>(x, c, m). cam_classes m \<noteq> None) calls" using Cons.prems(1) by simp
  show ?case using Cons.IH[OF r a] h by (simp add: call g)
qed

lemma count_list_upt: "count_list [0..<n] i = (if i < n then 1 else 0)"
  by (induction n) auto

lemma model_call_invokes_all:
  assumes "forward_hooks st = [0..<length (objects st)]" "i < length (objects st)"
  shows "activations (objects (snd (model_call nw x st)) ! i) = activations (objects st ! i) @ [net_features nw x]
     \<and> hook_calls (snd (model_call nw x st)) = hook_calls st + length (objects st)"
proof -
  have "count_list [0..<length (objects st)] i = 1" using assms(2)
    by (simp add: count_list_upt)
  then show ?thesis using fold_forward_hook_nth[OF assms(2), of "net_features nw x" "forward_hooks st"] assms(1)
    by (simp add: model_call_def)
qed


lemmas state_eval = generate_heatmap_def cam_classes_def CAMBase_init_def fresh_torch_def
  GradCAM_call_def GradCAMPlusPlus_call_def ScoreCAM_call_def capture_def
  get_activations_gradients_def model_call_def backward_def forward_hook_def backward_hook_def
  Let_def

lemmas scorecam_eval = torch_topk_def torch_mean_def torch_sum_def F_relu_def relu_def
  torch_zeros_def postprocess_def numeral_2_eq_2 bilinear_resize_def F_softmax_def

section \<open>Claims on the saliency map and on ScoreCAM's passes\<close>




text \<open>
  Claim C4, as the code has it. A call of a ScoreCAM object whose hooks are registered
  (as its constructor leaves it) never runs a backward pass and runs at most
  \<open>1 + min(64, C)\<close> forward passes, \<open>C\<close> the number of channels of the target layer:
  one pass on the unmasked input to capture the activations, then one masked pass for
  each of the \<open>min(64, C)\<close> selected channels. A call that returns a map runs exactly
  that many.
\<close>

theorem scorecam_pass_count:
  assumes "self < length (objects st)" "self \<in> set (forward_hooks st)"
    and "ScoreCAM_call nw self x targets st = (res, st')"
  shows "backward_passes st' = backward_passes st
     \<and> forward_passes st' \<le> forward_passes st + 1 + min 64 (length (chans (net_features nw x)))
     \<and> ((\<exists>r. res = Inr r) \<longrightarrow>
          forward_passes st' = forward_passes st + 1 + min 64 (length (chans (net_features nw x))))"
  using scorecam_counts[OF assms] .

theorem scorecam_pass_count_witness:
  "0 < length (objects (snd (CAMBase_init fresh_torch)))
   \<and> 0 \<in> set (forward_hooks (snd (CAMBase_init fresh_torch)))
   \<and> fst (ScoreCAM_call pair_network 0 unit_input (Some 0) (snd (CAMBase_init fresh_torch)))
       = Inr [[0, 0]]
   \<and> backward_passes
        (snd (ScoreCAM_call pair_network 0 unit_input (Some 0) (snd (CAMBase_init fresh_torch))))
       = 0
   \<and> forward_passes
        (snd (ScoreCAM_call pair_network 0 unit_input (Some 0) (snd (CAMBase_init fresh_torch))))
       = 3"
proof -
  let ?S = "snd (CAMBase_init fresh_torch)"
  let ?R = "ScoreCAM_call pair_network 0 unit_input (Some 0) ?S"
  have h1: "0 < length (objects ?S)" and h2: "0 \<in> set (forward_hooks ?S)"
    by (simp_all add: CAMBase_init_def fresh_torch_def)
  have f: "fst ?R = Inr [[0, 0]]"
    by (simp add: state_eval pair_network_def unit_input_def scorecam_eval)
  have h3: "?R = (fst ?R, snd ?R)" by simp
  have c: "min 64 (length (chans (net_features pair_network unit_input))) = 2"
    by (simp add: pair_network_def)
  have s: "forward_passes ?S = 0" "backward_passes ?S = 0"
    by (simp_all add: CAMBase_init_def fresh_torch_def)
  show ?thesis using h1 h2 f scorecam_pass_count[OF h1 h2 h3] unfolding c s by simp
qed

text \<open>
  The bound \<open>min(64, C)\<close> of the claim as worded is exceeded by one: on a layer with a
  single channel ScoreCAM runs two forward passes.
\<close>

theorem scorecam_pass_counterexample:
  "forward_passes
     (snd (ScoreCAM_call flat_network 0 unit_input (Some 0) (snd (CAMBase_init fresh_torch))))
     = forward_passes (snd (CAMBase_init fresh_torch)) + 2
   \<and> min 64 (length (chans (net_features flat_network unit_input))) = 1
   \<and> \<not> (2 :: nat) \<le> 1"
  by (simp add: state_eval flat_network_def unit_input_def scorecam_eval)

section \<open>Claim on unsupported methods\<close>

text \<open>
  Claim C7. A request to the route \<open>/predict\<close> whose \<open>cam_method\<close> is none of the three
  names is answered with status 400 and the state is left as it was: no forward pass, no
  hook, nothing saved or cached. (Without a file the message is that of the missing
  file, checked first; with one it is the invalid-method message.) \<open>generate_heatmap\<close>
  itself raises the unsupported-method error before it constructs a CAM object, leaving
  the model as it was.
\<close>

theorem unsupported_method_rejected:
  assumes "m \<notin> {''gradcam'', ''gradcam++'', ''scorecam''}" "form_cam_method req = Some m"
  shows "predict_route e req uuid flt st
       = (BadRequest (if files_file req = None then ''No file provided''
                      else ''Invalid CAM method''), st)
     \<and> generate_heatmap nw x c m tst
       = (Inl (ValueError (''Unsupported CAM method: '' @ m)), tst)"
  using assms
  by (auto simp: predict_route_def generate_heatmap_def cam_classes_def split: option.splits)

theorem unsupported_method_rejected_witness:
  "''foo'' \<notin> {''gradcam'', ''gradcam++'', ''scorecam''}
   \<and> predict_route demo_env \<lparr>files_file = Some demo_file, form_cam_method = Some ''foo''\<rparr>
        ''u1'' no_faults fresh_service
       = (BadRequest ''Invalid CAM method'', fresh_service)
   \<and> forward_passes (torch fresh_service) = 0
   \<and> generate_heatmap ramp_network unit_input 0 ''foo'' fresh_torch
       = (Inl (ValueError ''Unsupported CAM method: foo''), fresh_torch)"
proof -
  have h: "''foo'' \<notin> {''gradcam'', ''gradcam++'', ''scorecam''}" by simp
  show ?thesis
    using h unsupported_method_rejected[OF h, of "\<lparr>files_file = Some demo_file, form_cam_method = Some ''foo''\<rparr>"
        demo_env "''u1''" no_faults fresh_service ramp_network unit_input 0 fresh_torch]
    by (simp add: fresh_service_def fresh_torch_def)
qed


text \<open>
  The route is what keeps the model untouched. \<open>predict\<close> itself, called with an
  unknown method on a file that misses the cache, classifies the image first (one
  forward pass) and fails only when it reaches \<open>generate_heatmap\<close>.
\<close>

lemma predict_compute_unsupported:
  assumes "cam_classes m = None" "image_open e (up_content file) = Some img"
    "classify (optimal_thresholds e) (net_logits (model e) (transform e img)) = Inr (labels, probs, idx)"
    "labels_ok (cfg e) labels idx"
  shows "fst (predict_compute e file m fn b k r st) = Inl (ValueError (''Unsupported CAM method: '' @ m))
    \<and> forward_passes (torch (snd (predict_compute e file m fn b k r st))) = forward_passes (torch st) + 1"
  using assms
  by (simp add: predict_compute_def model_call_def generate_heatmap_def Let_def)

section \<open>Classification\<close>

lemma threshold_loop_spec:
  assumes "length preds = length probs" "i \<le> length probs"
  shows "threshold_loop i ts probs preds =
     (if i + length ts \<le> length probs
      then Inr (map (\<lambda>j. if i \<le> j \<and> j < i + length ts
                          then (if probs ! j > float32 (ts ! (j - i)) then 1 else 0)
                          else preds ! j) [0..<length probs])
      else Inl IndexError)"
  using assms
proof (induction ts arbitrary: i preds)
  case Nil
  then show ?case by (auto intro!: nth_equalityI)
next
  case (Cons t ts)
  show ?case
  proof (cases "i < length probs")
    case False
    then show ?thesis using Cons.prems by simp
  next
    case True
    let ?p = "preds[i := (if probs ! i > float32 t then 1 else 0)]"
    have len: "length ?p = length probs" using Cons.prems by simp
    have "threshold_loop i (t # ts) probs preds = threshold_loop (Suc i) ts probs ?p"
      using True by simp
    also have "\<dots> = (if Suc i + length ts \<le> length probs
      then Inr (map (\<lambda>j. if Suc i \<le> j \<and> j < Suc i + length ts
                          then (if probs ! j > float32 (ts ! (j - Suc i)) then 1 else 0)
                          else ?p ! j) [0..<length probs])
      else Inl IndexError)"
      using True by (intro Cons.IH[OF len]) simp
    also have "\<dots> = (if i + length (t # ts) \<le> length probs
      then Inr (map (\<lambda>j. if i \<le> j \<and> j < i + length (t # ts)
                          then (if probs ! j > float32 ((t # ts) ! (j - i)) then 1 else 0)
                          else preds ! j) [0..<length probs])
      else Inl IndexError)"
      using True Cons.prems
      by (auto intro!: nth_equalityI simp: nth_list_update nth_Cons' Suc_diff_Suc)
    finally show ?thesis .
  qed
qed

lemma argmax_loop_spec:
  assumes "best < length pre" "v = pre ! best" "\<forall>j<length pre. pre ! j \<le> v" "\<forall>j<best. pre ! j < v"
  shows "argmax_loop best v (length pre) xs < length (pre @ xs)
     \<and> (\<forall>j<length (pre @ xs). (pre @ xs) ! j \<le> (pre @ xs) ! argmax_loop best v (length pre) xs)
     \<and> (\<forall>j<argmax_loop best v (length pre) xs. (pre @ xs) ! j < (pre @ xs) ! argmax_loop best v (length pre) xs)"
  using assms
proof (induction xs arbitrary: best v pre)
  case Nil
  then show ?case by simp
next
  case (Cons x xs)
  show ?case
  proof (cases "x > v")
    case True
    have a: "length pre < length (pre @ [x])" "x = (pre @ [x]) ! length pre" by simp_all
    have b: "\<forall>j<length (pre @ [x]). (pre @ [x]) ! j \<le> x"
      using Cons.prems(3) True by (auto simp: nth_append less_Suc_eq)
    have c: "\<forall>j<length pre. (pre @ [x]) ! j < x"
      using Cons.prems(3) True by (auto simp: nth_append)
    from Cons.IH[OF a b c] True show ?thesis by simp
  next
    case False
    have a: "best < length (pre @ [x])" "v = (pre @ [x]) ! best"
      using Cons.prems(1,2) by (simp_all add: nth_append)
    have b: "\<forall>j<length (pre @ [x]). (pre @ [x]) ! j \<le> v"
      using Cons.prems(3) False by (auto simp: nth_append less_Suc_eq)
    have c: "\<forall>j<best. (pre @ [x]) ! j < v"
      using Cons.prems(1,4) by (auto simp: nth_append)
    from Cons.IH[OF a b c] False show ?thesis by simp
  qed
qed

lemma np_argmax_spec:
  assumes "np_argmax xs = Inr r"
  shows "r < length xs \<and> (\<forall>j<length xs. xs ! j \<le> xs ! r) \<and> (\<forall>j<r. xs ! j < xs ! r)"
proof (cases xs)
  case Nil
  then show ?thesis using assms by (simp add: np_argmax_def)
next
  case (Cons x rest)
  then have r: "r = argmax_loop 0 x (length [x]) rest" using assms by (simp add: np_argmax_def)
  show ?thesis using argmax_loop_spec[of 0 "[x]" x rest] unfolding r Cons by simp
qed

lemma classify_Inr:
  assumes "classify thr out = Inr (labels, probs, idx)"
  shows "probs = map torch_sigmoid out \<and> np_argmax probs = Inr idx
     \<and> length thr \<le> length probs
     \<and> labels = map (\<lambda>j. if j < length thr then (if probs ! j > float32 (thr ! j) then 1 else 0) else 0) [0..<length probs]"
proof -
  let ?p = "map torch_sigmoid out"
  have tl: "threshold_loop 0 thr ?p (replicate (length ?p) 0) =
     (if 0 + length thr \<le> length ?p
      then Inr (map (\<lambda>j. if 0 \<le> j \<and> j < 0 + length thr
                          then (if ?p ! j > float32 (thr ! (j - 0)) then 1 else 0)
                          else replicate (length ?p) 0 ! j) [0..<length ?p])
      else Inl IndexError)"
    by (rule threshold_loop_spec) simp_all
  have le: "length thr \<le> length ?p" using assms tl by (auto simp: classify_def Let_def split: if_splits)
  have "labels = map (\<lambda>j. if 0 \<le> j \<and> j < 0 + length thr
                          then (if ?p ! j > float32 (thr ! (j - 0)) then 1 else 0)
                          else replicate (length ?p) 0 ! j) [0..<length ?p]"
    and p: "probs = ?p" and am: "np_argmax ?p = Inr idx"
    using assms le unfolding classify_def Let_def tl by (auto split: if_splits sum.splits)
  then have "labels = map (\<lambda>j. if j < length thr then (if ?p ! j > float32 (thr ! j) then 1 else 0) else 0) [0..<length ?p]"
    by (auto intro!: nth_equalityI)
  then show ?thesis using p am le by simp
qed

section \<open>Rendering\<close>







lemma f64_03: "float64 (3 / 10) = 5404319552844595 / 18014398509481984"
  unfolding float64_def
  by (subst fl_round_scaled[where k = 54]) (simp_all add: round_half_even_def)

lemma float32_python_three_tenths: "float32 (float64 (3 / 10)) = 10066330 / 33554432"
  unfolding f64_03 unfolding float32_def
  by (subst fl_round_scaled[where k = 25]) (simp_all add: round_half_even_def)


















section \<open>The pipeline and the cache\<close>

lemma predict_compute_Inr:
  assumes "predict_compute e file m fn b k rs st = (Inr r, st')"
  shows "\<exists>img out t1 labels probs idx heat t2 hm ov.
      image_open e (up_content file) = Some img
    \<and> model_call (model e) (transform e img) (torch st) = (out, t1)
    \<and> classify (optimal_thresholds e) out = Inr (labels, probs, idx)
    \<and> generate_heatmap (model e) (transform e img) idx m t1 = (Inr heat, t2)
    \<and> render (colormap_jet e) heat img = Inr (hm, ov)
    \<and> build_predictions (cfg e) labels probs = Inr (r_predictions r)
    \<and> r = \<lparr>r_predictions = r_predictions r,
           r_heatmap_path = ''heatmap_'' @ m @ ''_'' @ fn,
           r_superimposed_path = ''superimposed_'' @ m @ ''_'' @ fn,
           r_cam_method = m,
           r_original_size = (im_width img, im_height img),
           r_model_input_size = (512, 512)\<rparr>
    \<and> st' = cache_store b k r rs
             (st\<lparr>torch := t2,
                 result_dir := (result_dir st)
                   (''heatmap_'' @ m @ ''_'' @ fn \<mapsto> hm,
                    ''superimposed_'' @ m @ ''_'' @ fn \<mapsto> ov)\<rparr>)"
  using assms
  by (auto simp: predict_compute_def Let_def
      split: option.splits sum.splits prod.splits if_splits)

lemma cache_store_frame:
  "torch (cache_store b k r rs st) = torch st \<and> result_dir (cache_store b k r rs st) = result_dir st"
  by (simp add: cache_store_def split: option.splits)

lemma predict_compute_cache_free:
  "fst (predict_compute e file m fn b k rs st) = fst (predict_compute e file m fn b2 k2 rs2 (st\<lparr>redis := X\<rparr>))
   \<and> torch (snd (predict_compute e file m fn b k rs st)) = torch (snd (predict_compute e file m fn b2 k2 rs2 (st\<lparr>redis := X\<rparr>)))
   \<and> result_dir (snd (predict_compute e file m fn b k rs st)) = result_dir (snd (predict_compute e file m fn b2 k2 rs2 (st\<lparr>redis := X\<rparr>)))"
  by (auto simp: predict_compute_def Let_def cache_store_frame
      split: option.splits sum.splits prod.splits if_splits)

lemmas render_eval = render_def bilinear_resize_def bilinear_at_def src_coord_def np_clip_def
  np_uint8_def swap_rb_def blend_def Let_def

lemmas classify_eval = classify_def torch_sigmoid_def np_argmax_def
  float32_quarter float32_half

lemmas predict_eval = predict_def predict_compute_def cache_check_def cache_store_def
  no_faults_def demo_env_def demo_file_def fresh_service_def allowed_file_def demo_config_def
  ascii_lower_def state_eval classify_eval labels_ok_def build_predictions_def
  ramp_network_def ramp_acts_def ones_grads_def unit_input_def cam_eval
  demo_image_def render_eval demo_result_def cache_key_of_def


section \<open>Claims on classification\<close>

text \<open>
  Claim C3. In every prediction that is computed, the class index handed to
  \<open>generate_heatmap\<close> is the first index at which the probability vector (the sigmoid
  of the model's output) takes its maximum. The thresholds play no part in the choice:
  whatever thresholds are used to classify the same output, the index is the same. So
  the explained class can be one whose thresholded call is negative, as in the example
  below, where both probabilities equal their threshold \<open>1/2\<close>, no class is positive and
  class 0 is explained.
\<close>

theorem explained_class_is_argmax:
  assumes "predict_compute e file m fn b k rs st = (Inr r, st')"
  shows "\<exists>img out t1 labels probs idx heat t2.
      image_open e (up_content file) = Some img
    \<and> model_call (model e) (transform e img) (torch st) = (out, t1)
    \<and> classify (optimal_thresholds e) out = Inr (labels, probs, idx)
    \<and> generate_heatmap (model e) (transform e img) idx m t1 = (Inr heat, t2)
    \<and> probs = map torch_sigmoid out
    \<and> idx < length probs
    \<and> (\<forall>j<length probs. probs ! j \<le> probs ! idx)
    \<and> (\<forall>j<idx. probs ! j < probs ! idx)
    \<and> (\<forall>thr' labels' probs' idx'.
          classify thr' out = Inr (labels', probs', idx') \<longrightarrow> idx' = idx)"
proof -
  from predict_compute_Inr[OF assms] obtain img out t1 labels probs idx heat t2 where
    a: "image_open e (up_content file) = Some img"
       "model_call (model e) (transform e img) (torch st) = (out, t1)"
       "classify (optimal_thresholds e) out = Inr (labels, probs, idx)"
       "generate_heatmap (model e) (transform e img) idx m t1 = (Inr heat, t2)"
    by blast
  note c = classify_Inr[OF a(3)]
  have p: "probs = map torch_sigmoid out" and am: "np_argmax probs = Inr idx" using c by blast+
  note s = np_argmax_spec[OF am]
  have u: "idx' = idx" if "classify thr' out = Inr (labels', probs', idx')" for thr' labels' probs' idx'
  proof -
    have "np_argmax (map torch_sigmoid out) = Inr idx'" using classify_Inr[OF that] by blast
    then show ?thesis using am unfolding p by simp
  qed
  show ?thesis using a p s u by blast
qed

theorem explained_class_is_argmax_witness:
  "fst (predict_compute (demo_env\<lparr>optimal_thresholds := [1 / 2, 1 / 2]\<rparr>) demo_file ''gradcam''
         ''u1_a.png'' True None False fresh_service)
     = Inr (demo_result\<lparr>r_predictions :=
              [(''Atelectasis'', \<lparr>positive = False, probability = 1 / 2\<rparr>),
               (''Cardiomegaly'', \<lparr>positive = False, probability = 1 / 2\<rparr>)]\<rparr>)
   \<and> classify [1 / 2, 1 / 2] [0, 0] = Inr ([0, 0], [1 / 2, 1 / 2], 0)
   \<and> (\<exists>heat t2. generate_heatmap ramp_network unit_input 0 ''gradcam''
          (snd (model_call ramp_network unit_input fresh_torch)) = (Inr heat, t2))"
proof -
  let ?e = "demo_env\<lparr>optimal_thresholds := [1 / 2, 1 / 2]\<rparr>"
  let ?P = "predict_compute ?e demo_file ''gradcam'' ''u1_a.png'' True None False fresh_service"
  have f: "fst ?P = Inr (demo_result\<lparr>r_predictions :=
              [(''Atelectasis'', \<lparr>positive = False, probability = 1 / 2\<rparr>),
               (''Cardiomegaly'', \<lparr>positive = False, probability = 1 / 2\<rparr>)]\<rparr>)"
    by (simp add: predict_eval)
  then have h: "?P = (Inr (demo_result\<lparr>r_predictions :=
              [(''Atelectasis'', \<lparr>positive = False, probability = 1 / 2\<rparr>),
               (''Cardiomegaly'', \<lparr>positive = False, probability = 1 / 2\<rparr>)]\<rparr>), snd ?P)"
    by (simp add: prod_eq_iff)
  have c: "classify [1 / 2, 1 / 2] [0, 0] = Inr ([0, 0], [1 / 2, 1 / 2], 0)"
    by (simp add: classify_eval)
  have env: "image_open ?e (up_content demo_file) = Some demo_image"
    "transform ?e demo_image = unit_input" "model ?e = ramp_network"
    "optimal_thresholds ?e = [1 / 2, 1 / 2]" "torch fresh_service = fresh_torch"
    "net_logits ramp_network unit_input = [0, 0]"
    by (simp_all add: demo_env_def fresh_service_def ramp_network_def)
  from explained_class_is_argmax[OF h] obtain img out t1 labels probs idx heat t2 where
    a: "image_open ?e (up_content demo_file) = Some img"
       "model_call (model ?e) (transform ?e img) (torch fresh_service) = (out, t1)"
       "classify (optimal_thresholds ?e) out = Inr (labels, probs, idx)"
       "generate_heatmap (model ?e) (transform ?e img) idx ''gradcam'' t1 = (Inr heat, t2)"
    by blast
  have i: "img = demo_image" using a(1) env(1) by simp
  have o: "out = [0, 0]" "t1 = snd (model_call ramp_network unit_input fresh_torch)"
    using a(2) unfolding i env by (simp_all add: model_call_def env(6))
  have "idx = 0" using a(3) c unfolding o env by simp
  then have "generate_heatmap ramp_network unit_input 0 ''gradcam''
          (snd (model_call ramp_network unit_input fresh_torch)) = (Inr heat, t2)"
    using a(4) unfolding i env o by simp
  then show ?thesis using f c by blast
qed

lemma build_predictions_nth:
  assumes "build_predictions c labels probs = Inr ps" "i < NUM_CLASSES c"
  shows "ps ! i = (DISEASE_LABELS c ! i, \<lparr>positive = (labels ! i \<noteq> 0), probability = probs ! i\<rparr>)
     \<and> i < length probs \<and> length ps = NUM_CLASSES c"
  using assms by (auto simp: build_predictions_def split: if_splits)


text \<open>
  Claim C6, as the code has it. For every class \<open>c\<close> that has a threshold, the call
  reported by a computed prediction is positive exactly when the reported probability
  is strictly greater than the threshold of \<open>c\<close> rounded to \<open>float32\<close>, the format in
  which torch compares; a probability equal to the rounded threshold gives a negative
  call. A threshold that \<open>float32\<close> holds exactly, such as \<open>0.5\<close> or \<open>0.25\<close>, is compared
  as it is. \<open>Predictor.predict_single_image\<close> sets its label by the same comparison.
\<close>

theorem threshold_strict:
  assumes "c < length (optimal_thresholds e)"
  shows "(predict_compute e file m fn b k rs st = (Inr r, st') \<longrightarrow> c < NUM_CLASSES (cfg e) \<longrightarrow>
            positive (snd (r_predictions r ! c))
              = (probability (snd (r_predictions r ! c)) > float32 (optimal_thresholds e ! c)))
       \<and> (predict_single_image e bs tr ts = (Inr (preds, probs), ts') \<longrightarrow>
            preds ! c = (if probs ! c > float32 (optimal_thresholds e ! c) then 1 else 0))"
proof (intro conjI impI)
  assume p: "predict_compute e file m fn b k rs st = (Inr r, st')" and n: "c < NUM_CLASSES (cfg e)"
  from predict_compute_Inr[OF p] obtain out labels probs idx where
    cl: "classify (optimal_thresholds e) out = Inr (labels, probs, idx)"
    and bp: "build_predictions (cfg e) labels probs = Inr (r_predictions r)"
    by blast
  note b = build_predictions_nth[OF bp n]
  have lab: "labels = map (\<lambda>j. if j < length (optimal_thresholds e)
        then (if probs ! j > float32 (optimal_thresholds e ! j) then 1 else 0) else 0)
        [0..<length probs]"
    using classify_Inr[OF cl] by blast
  have "labels ! c = (if probs ! c > float32 (optimal_thresholds e ! c) then 1 else 0)"
    using b assms by (subst lab) simp
  then show "positive (snd (r_predictions r ! c))
              = (probability (snd (r_predictions r ! c)) > float32 (optimal_thresholds e ! c))"
    using b by simp
next
  assume p: "predict_single_image e bs tr ts = (Inr (preds, probs), ts')"
  then obtain out where pr: "probs = map torch_sigmoid out"
    and tl: "threshold_loop 0 (optimal_thresholds e) probs (replicate (length probs) 0) = Inr preds"
    by (auto simp: predict_single_image_def Let_def split: option.splits prod.splits sum.splits)
  have "threshold_loop 0 (optimal_thresholds e) probs (replicate (length probs) 0) =
     (if 0 + length (optimal_thresholds e) \<le> length probs
      then Inr (map (\<lambda>j. if 0 \<le> j \<and> j < 0 + length (optimal_thresholds e)
                          then (if probs ! j > float32 (optimal_thresholds e ! (j - 0)) then 1 else 0)
                          else replicate (length probs) 0 ! j) [0..<length probs])
      else Inl IndexError)"
    by (rule threshold_loop_spec) simp_all
  then have le: "length (optimal_thresholds e) \<le> length probs"
    and "preds = map (\<lambda>j. if 0 \<le> j \<and> j < 0 + length (optimal_thresholds e)
                          then (if probs ! j > float32 (optimal_thresholds e ! (j - 0)) then 1 else 0)
                          else replicate (length probs) 0 ! j) [0..<length probs]"
    using tl by (auto split: if_splits)
  then show "preds ! c = (if probs ! c > float32 (optimal_thresholds e ! c) then 1 else 0)"
    using assms by simp
qed

theorem threshold_strict_witness:
  "1 < length (optimal_thresholds demo_env) \<and> 1 < NUM_CLASSES (cfg demo_env)
   \<and> fst (predict_compute demo_env demo_file ''gradcam'' ''u1_a.png'' True None False fresh_service)
       = Inr demo_result
   \<and> float32 (optimal_thresholds demo_env ! 1) = 1 / 2
   \<and> probability (snd (r_predictions demo_result ! 1)) = 1 / 2
   \<and> \<not> positive (snd (r_predictions demo_result ! 1))
   \<and> float32 (optimal_thresholds demo_env ! 0) = 1 / 4
   \<and> probability (snd (r_predictions demo_result ! 0)) = 1 / 2
   \<and> positive (snd (r_predictions demo_result ! 0))
   \<and> fst (predict_single_image demo_env [1, 2, 3] (transform demo_env) fresh_torch)
       = Inr ([1, 0], [1 / 2, 1 / 2])"
proof -
  let ?P = "predict_compute demo_env demo_file ''gradcam'' ''u1_a.png'' True None False fresh_service"
  let ?Q = "predict_single_image demo_env [1, 2, 3] (transform demo_env) fresh_torch"
  have h0: "0 < length (optimal_thresholds demo_env)" and h1: "1 < length (optimal_thresholds demo_env)"
    and n0: "0 < NUM_CLASSES (cfg demo_env)" and n1: "1 < NUM_CLASSES (cfg demo_env)"
    by (simp_all add: demo_env_def demo_config_def)
  have f: "fst ?P = Inr demo_result" by (simp add: predict_eval)
  then have h: "?P = (Inr demo_result, snd ?P)" by (simp add: prod_eq_iff)
  have q: "fst ?Q = Inr ([1, 0], [1 / 2, 1 / 2])"
    by (simp add: predict_single_image_def demo_env_def ramp_network_def model_call_def
        torch_sigmoid_def Let_def float32_quarter float32_half)
  then have hq: "?Q = (Inr ([1, 0], [1 / 2, 1 / 2]), snd ?Q)" by (simp add: prod_eq_iff)
  have t: "float32 (optimal_thresholds demo_env ! 1) = 1 / 2"
    "float32 (optimal_thresholds demo_env ! 0) = 1 / 4"
    by (simp_all add: demo_env_def float32_quarter float32_half)
  have v: "probability (snd (r_predictions demo_result ! 1)) = 1 / 2"
    "probability (snd (r_predictions demo_result ! 0)) = 1 / 2"
    by (simp_all add: demo_result_def)
  from threshold_strict[OF h1, of demo_file "''gradcam''" "''u1_a.png''" True None False
      fresh_service demo_result "snd ?P" "[1, 2, 3]" "transform demo_env" fresh_torch
      "[1, 0]" "[1 / 2, 1 / 2]" "snd ?Q"] h hq n1 v t
  have a: "\<not> positive (snd (r_predictions demo_result ! 1))" by simp
  from threshold_strict[OF h0, of demo_file "''gradcam''" "''u1_a.png''" True None False
      fresh_service demo_result "snd ?P" "[1, 2, 3]" "transform demo_env" fresh_torch
      "[1, 0]" "[1 / 2, 1 / 2]" "snd ?Q"] h hq n0 v t
  have b: "positive (snd (r_predictions demo_result ! 0))" by simp
  show ?thesis using h1 n1 f v t a b q by simp
qed

text \<open>
  The claim as worded fails where rounding moves the threshold up. The Python number
  \<open>0.3\<close> is \<open>float64 (3 / 10)\<close>, a little below \<open>3 / 10\<close>; the \<open>float32\<close> nearest to
  \<open>3 / 10\<close> is a little above. A probability of that \<open>float32\<close> value is strictly greater
  than the threshold and is called negative, because the threshold is rounded to the
  same \<open>float32\<close> before the comparison.
\<close>

theorem threshold_rounding_counterexample:
  "threshold_loop 0 [float64 (3 / 10)] [float32 (3 / 10)] [0] = Inr [0]
   \<and> float64 (3 / 10) < float32 (3 / 10)
   \<and> float64 (3 / 10) = 5404319552844595 / 18014398509481984
   \<and> float32 (3 / 10) = 10066330 / 33554432"
  by (simp add: float32_python_three_tenths float32_three_tenths) (simp add: f64_03)


section \<open>Claim on the cache\<close>

lemma predict_miss:
  assumes "up_filename file \<noteq> []" "allowed_file (cfg e) (up_filename file)"
    and "on_read flt \<noteq> NoFault \<or> redis st (cache_key_of e (up_content file) m) = None"
  shows "\<exists>b k. predict e file m uuid flt st
     = predict_compute e file m (secure_filename e (uuid @ ''_'' @ up_filename file)) b k
         (set_raises flt) st"
  using assms by (cases "on_read flt") (auto simp: predict_def cache_check_def Let_def)

lemma predict_hit:
  assumes "up_filename file \<noteq> []" "allowed_file (cfg e) (up_filename file)"
    and "on_read flt = NoFault" "redis st (cache_key_of e (up_content file) m) = Some r"
  shows "predict e file m uuid flt st = (Inr r, st)"
  using assms by (simp add: predict_def cache_check_def Let_def)

lemma predict_stores:
  assumes "predict e file m uuid no_faults st = (Inr r, st1)"
  shows "redis st1 (cache_key_of e (up_content file) m) = Some r"
proof -
  have v: "up_filename file \<noteq> []" "allowed_file (cfg e) (up_filename file)"
    using assms by (auto simp: predict_def split: if_splits)
  show ?thesis
  proof (cases "redis st (cache_key_of e (up_content file) m)")
    case (Some r')
    then have "predict e file m uuid no_faults st = (Inr r', st)"
      using v by (intro predict_hit) (simp_all add: no_faults_def)
    then show ?thesis using assms Some by simp
  next
    case None
    then have "predict e file m uuid no_faults st
       = predict_compute e file m (secure_filename e (uuid @ ''_'' @ up_filename file)) True
           (Some (cache_key_of e (up_content file) m)) False st"
      using v by (simp add: predict_def cache_check_def Let_def no_faults_def)
    then have "predict_compute e file m (secure_filename e (uuid @ ''_'' @ up_filename file)) True
           (Some (cache_key_of e (up_content file) m)) False st = (Inr r, st1)"
      using assms by simp
    from predict_compute_Inr[OF this] obtain st3 where
      "st1 = cache_store True (Some (cache_key_of e (up_content file) m)) r False st3" by blast
    then show ?thesis by (simp add: cache_store_def)
  qed
qed


text \<open>
  Claim C8. The cache key is made of the hash of the file's bytes and the method name
  only. For a file with an allowed name: a request that finds its key in the cache
  returns the stored result and leaves the whole state, the model included, as it was;
  a request that repeats, under any file name, the bytes and the method of an earlier
  successful request gets that request's result in this way. When the cache check fails or
  finds nothing, and whether or not the later \<open>set_cache\<close> fails, the result, the model
  state and the saved images are those of a fault-free request on an empty cache.
\<close>

theorem cache_behaviour:
  assumes "up_filename file \<noteq> []" "allowed_file (cfg e) (up_filename file)"
  shows "(on_read flt = NoFault \<longrightarrow> redis st (cache_key_of e (up_content file) m) = Some r \<longrightarrow>
            predict e file m uuid flt st = (Inr r, st))
     \<and> (predict e file0 m uuid0 no_faults st0 = (Inr r, st1) \<longrightarrow>
          up_content file0 = up_content file \<longrightarrow>
            cache_key_of e (up_content file0) m = cache_key_of e (up_content file) m
            \<and> predict e file m uuid no_faults st1 = (Inr r, st1))
     \<and> (on_read flt \<noteq> NoFault \<or> redis st (cache_key_of e (up_content file) m) = None \<longrightarrow>
          fst (predict e file m uuid flt st)
            = fst (predict e file m uuid no_faults (st\<lparr>redis := Map.empty\<rparr>))
          \<and> torch (snd (predict e file m uuid flt st))
            = torch (snd (predict e file m uuid no_faults (st\<lparr>redis := Map.empty\<rparr>)))
          \<and> result_dir (snd (predict e file m uuid flt st))
            = result_dir (snd (predict e file m uuid no_faults (st\<lparr>redis := Map.empty\<rparr>))))"
proof (intro conjI impI)
  assume "on_read flt = NoFault" "redis st (cache_key_of e (up_content file) m) = Some r"
  then show "predict e file m uuid flt st = (Inr r, st)"
    using assms by (intro predict_hit)
next
  assume p: "predict e file0 m uuid0 no_faults st0 = (Inr r, st1)"
    and c: "up_content file0 = up_content file"
  show "cache_key_of e (up_content file0) m = cache_key_of e (up_content file) m"
    using c by simp
  have "redis st1 (cache_key_of e (up_content file) m) = Some r"
    using predict_stores[OF p] c by simp
  then show "predict e file m uuid no_faults st1 = (Inr r, st1)"
    using assms by (intro predict_hit) (simp_all add: no_faults_def)
next
  assume miss: "on_read flt \<noteq> NoFault \<or> redis st (cache_key_of e (up_content file) m) = None"
  let ?fn = "secure_filename e (uuid @ ''_'' @ up_filename file)"
  from predict_miss[OF assms miss] obtain b k where
    l: "predict e file m uuid flt st = predict_compute e file m ?fn b k (set_raises flt) st"
    by blast
  have "on_read no_faults \<noteq> NoFault
     \<or> redis (st\<lparr>redis := Map.empty\<rparr>) (cache_key_of e (up_content file) m) = None" by simp
  from predict_miss[OF assms this] obtain b2 k2 where
    r: "predict e file m uuid no_faults (st\<lparr>redis := Map.empty\<rparr>)
        = predict_compute e file m ?fn b2 k2 (set_raises no_faults) (st\<lparr>redis := Map.empty\<rparr>)"
    by blast
  note f = predict_compute_cache_free[of e "file" m "?fn" b k "set_raises flt" st b2 k2
      "set_raises no_faults" "Map.empty"]
  show "fst (predict e file m uuid flt st)
            = fst (predict e file m uuid no_faults (st\<lparr>redis := Map.empty\<rparr>))"
    unfolding l r using f by blast
  show "torch (snd (predict e file m uuid flt st))
            = torch (snd (predict e file m uuid no_faults (st\<lparr>redis := Map.empty\<rparr>)))"
    unfolding l r using f by blast
  show "result_dir (snd (predict e file m uuid flt st))
            = result_dir (snd (predict e file m uuid no_faults (st\<lparr>redis := Map.empty\<rparr>)))"
    unfolding l r using f by blast
qed

theorem cache_behaviour_witness:
  "up_filename renamed_file \<noteq> [] \<and> allowed_file (cfg demo_env) (up_filename renamed_file)
   \<and> up_content demo_file = up_content renamed_file
   \<and> fst (predict demo_env demo_file ''gradcam'' ''u1'' no_faults fresh_service) = Inr demo_result
   \<and> predict demo_env renamed_file ''gradcam'' ''u2'' no_faults
        (snd (predict demo_env demo_file ''gradcam'' ''u1'' no_faults fresh_service))
       = (Inr demo_result, snd (predict demo_env demo_file ''gradcam'' ''u1'' no_faults fresh_service))
   \<and> fst (predict demo_env demo_file ''gradcam'' ''u1''
            \<lparr>on_read = GetRaises, set_raises = True\<rparr> fresh_service) = Inr demo_result"
proof -
  let ?P = "predict demo_env demo_file ''gradcam'' ''u1'' no_faults fresh_service"
  have v: "up_filename renamed_file \<noteq> []" "allowed_file (cfg demo_env) (up_filename renamed_file)"
    by (simp_all add: renamed_file_def demo_env_def demo_config_def allowed_file_def ascii_lower_def)
  have v1: "up_filename demo_file \<noteq> []" "allowed_file (cfg demo_env) (up_filename demo_file)"
    by (simp_all add: demo_file_def demo_env_def demo_config_def allowed_file_def ascii_lower_def)
  have c: "up_content demo_file = up_content renamed_file"
    by (simp add: demo_file_def renamed_file_def)
  have f: "fst ?P = Inr demo_result" by (simp add: predict_eval)
  then have h: "?P = (Inr demo_result, snd ?P)" by (simp add: prod_eq_iff)
  have e: "redis (fresh_service\<lparr>redis := Map.empty\<rparr>) = redis fresh_service"
    "fresh_service\<lparr>redis := Map.empty\<rparr> = fresh_service"
    by (simp_all add: fresh_service_def)
  have g: "on_read \<lparr>on_read = GetRaises, set_raises = True\<rparr> \<noteq> NoFault" by simp
  note t1 = cache_behaviour[OF v, where m = "''gradcam''" and r = demo_result
      and uuid = "''u2''" and ?file0.0 = demo_file and ?uuid0.0 = "''u1''"
      and ?st0.0 = fresh_service and ?st1.0 = "snd ?P"]
  note t2 = cache_behaviour[OF v1, where flt = "\<lparr>on_read = GetRaises, set_raises = True\<rparr>"
      and st = fresh_service and m = "''gradcam''" and uuid = "''u1''"]
  have second: "predict demo_env renamed_file ''gradcam'' ''u2'' no_faults (snd ?P)
       = (Inr demo_result, snd ?P)"
    using t1 h c by blast
  have third: "fst (predict demo_env demo_file ''gradcam'' ''u1''
            \<lparr>on_read = GetRaises, set_raises = True\<rparr> fresh_service) = Inr demo_result"
    using t2 g f unfolding e by simp
  show ?thesis using v c f second third by simp
qed

section \<open>Claim on rendering\<close>



section \<open>Claim on the accumulation of hooks\<close>

lemma predict_hooks:
  assumes "predict e file m uuid flt st = (Inr r, st')"
  shows "forward_hooks (torch st') = forward_hooks (torch st)
           @ (if on_read flt = NoFault \<and> redis st (cache_key_of e (up_content file) m) \<noteq> None
              then [] else [length (objects (torch st))])
       \<and> backward_hooks (torch st') = backward_hooks (torch st)
           @ (if on_read flt = NoFault \<and> redis st (cache_key_of e (up_content file) m) \<noteq> None
              then [] else [length (objects (torch st))])"
proof -
  have v: "up_filename file \<noteq> []" "allowed_file (cfg e) (up_filename file)"
    using assms by (auto simp: predict_def split: if_splits)
  show ?thesis
  proof (cases "on_read flt = NoFault \<and> redis st (cache_key_of e (up_content file) m) \<noteq> None")
    case True
    then obtain r' where "redis st (cache_key_of e (up_content file) m) = Some r'" by blast
    then have "predict e file m uuid flt st = (Inr r', st)"
      using v True by (intro predict_hit) simp_all
    then show ?thesis using assms True by simp
  next
    case False
    then have "on_read flt \<noteq> NoFault \<or> redis st (cache_key_of e (up_content file) m) = None"
      by blast
    from predict_miss[OF v this] obtain b k where
      "predict e file m uuid flt st = predict_compute e file m
         (secure_filename e (uuid @ ''_'' @ up_filename file)) b k (set_raises flt) st"
      by blast
    then have pc: "predict_compute e file m
         (secure_filename e (uuid @ ''_'' @ up_filename file)) b k (set_raises flt) st = (Inr r, st')"
      using assms by simp
    from predict_compute_Inr[OF pc] obtain img out t1 idx heat t2 st3 where
      mc: "model_call (model e) (transform e img) (torch st) = (out, t1)"
      and gh: "generate_heatmap (model e) (transform e img) idx m t1 = (Inr heat, t2)"
      and st': "st' = cache_store b k r (set_raises flt) st3" and t3: "torch st3 = t2"
      by fastforce
    have cls: "cam_classes m \<noteq> None"
      using gh by (auto simp: generate_heatmap_def split: option.splits)
    then obtain cls where "cam_classes m = Some cls" by blast
    note g = generate_heatmap_hooks[OF this gh]
    note c = model_call_counts[OF mc]
    have "torch st' = t2" unfolding st' using t3 by (simp add: cache_store_frame)
    then show ?thesis using g c False by simp
  qed
qed

text \<open>
  Claim C10, as the code has it. Every call of \<open>generate_heatmap\<close> with one of the
  three method names constructs a CAM object that appends one forward and one backward
  hook to the target layer of the shared model, and nothing removes a hook. So after
  \<open>n\<close> such calls on a freshly loaded model the layer carries the \<open>n\<close> forward and \<open>n\<close>
  backward hooks of the objects \<open>0, \<dots>, n - 1\<close>, and a further forward pass calls all
  \<open>n\<close> forward hooks: each of the \<open>n\<close> objects gets the layer's output appended to its
  list of activations. A successful prediction makes one such call when it misses the
  cache and none when it is answered from the cache, so it adds one hook of each kind
  or none.
\<close>

theorem hooks_accumulate:
  assumes "list_all (\<lambda>(x, c, m). cam_classes m \<noteq> None) calls"
  shows "(\<forall>(x, c, m)\<in>set calls. \<forall>st.
            forward_hooks (snd (generate_heatmap nw x c m st))
              = forward_hooks st @ [length (objects st)]
          \<and> backward_hooks (snd (generate_heatmap nw x c m st))
              = backward_hooks st @ [length (objects st)])
     \<and> forward_hooks (heatmap_calls nw calls fresh_torch) = [0..<length calls]
     \<and> backward_hooks (heatmap_calls nw calls fresh_torch) = [0..<length calls]
     \<and> hook_calls (snd (model_call nw y (heatmap_calls nw calls fresh_torch)))
         = hook_calls (heatmap_calls nw calls fresh_torch) + length calls
     \<and> (\<forall>i<length calls.
           activations (objects (snd (model_call nw y (heatmap_calls nw calls fresh_torch))) ! i)
           = activations (objects (heatmap_calls nw calls fresh_torch) ! i) @ [net_features nw y])
     \<and> (\<forall>e file m uuid flt st r st'. predict e file m uuid flt st = (Inr r, st') \<longrightarrow>
           forward_hooks (torch st') = forward_hooks (torch st)
             @ (if on_read flt = NoFault \<and> redis st (cache_key_of e (up_content file) m) \<noteq> None
                then [] else [length (objects (torch st))])
         \<and> backward_hooks (torch st') = backward_hooks (torch st)
             @ (if on_read flt = NoFault \<and> redis st (cache_key_of e (up_content file) m) \<noteq> None
                then [] else [length (objects (torch st))]))"
proof -
  let ?S = "heatmap_calls nw calls fresh_torch"
  have f: "forward_hooks fresh_torch = [0..<length (objects fresh_torch)]"
     "backward_hooks fresh_torch = [0..<length (objects fresh_torch)]"
     "length (objects fresh_torch) = 0"
    by (simp_all add: fresh_torch_def)
  have a: "forward_hooks ?S = [0..<length calls]" "backward_hooks ?S = [0..<length calls]"
    "length (objects ?S) = length calls"
    using heatmap_calls_hooks[OF assms f(1,2), of nw] f(3) by simp_all
  have fh: "forward_hooks ?S = [0..<length (objects ?S)]" using a by simp
  have one: "forward_hooks (snd (generate_heatmap nw x c m st)) = forward_hooks st @ [length (objects st)]
          \<and> backward_hooks (snd (generate_heatmap nw x c m st)) = backward_hooks st @ [length (objects st)]"
    if "(x, c, m) \<in> set calls" for x c m st
  proof -
    have "cam_classes m \<noteq> None" using assms that by (auto simp: list_all_iff)
    then obtain cls where "cam_classes m = Some cls" by blast
    from generate_heatmap_hooks[OF this, of nw x c st "fst (generate_heatmap nw x c m st)" "snd (generate_heatmap nw x c m st)"]
    show ?thesis by simp
  qed
  have inv: "activations (objects (snd (model_call nw y ?S)) ! i) = activations (objects ?S ! i) @ [net_features nw y]"
    if "i < length calls" for i
    using model_call_invokes_all[OF fh, of i nw y] that a(3) by simp
  have hc: "hook_calls (snd (model_call nw y ?S)) = hook_calls ?S + length calls"
    by (simp add: model_call_def a)
  have pr: "forward_hooks (torch st') = forward_hooks (torch st)
             @ (if on_read flt = NoFault \<and> redis st (cache_key_of e (up_content upl) m) \<noteq> None
                then [] else [length (objects (torch st))])
         \<and> backward_hooks (torch st') = backward_hooks (torch st)
             @ (if on_read flt = NoFault \<and> redis st (cache_key_of e (up_content upl) m) \<noteq> None
                then [] else [length (objects (torch st))])"
    if "predict e upl m uuid flt st = (Inr r, st')" for e upl m uuid flt st r st'
    by (rule predict_hooks[OF that])
  show ?thesis using one a(1,2) hc inv pr by blast
qed

theorem hooks_accumulate_witness:
  "list_all (\<lambda>(x, c, m). cam_classes m \<noteq> None)
     [(unit_input, 0, ''gradcam''), (unit_input, 1, ''scorecam'')]
   \<and> forward_hooks (heatmap_calls ramp_network
        [(unit_input, 0, ''gradcam''), (unit_input, 1, ''scorecam'')] fresh_torch) = [0, 1]
   \<and> backward_hooks (heatmap_calls ramp_network
        [(unit_input, 0, ''gradcam''), (unit_input, 1, ''scorecam'')] fresh_torch) = [0, 1]
   \<and> hook_calls (snd (model_call ramp_network unit_input (heatmap_calls ramp_network
        [(unit_input, 0, ''gradcam''), (unit_input, 1, ''scorecam'')] fresh_torch)))
      = hook_calls (heatmap_calls ramp_network
        [(unit_input, 0, ''gradcam''), (unit_input, 1, ''scorecam'')] fresh_torch) + 2
   \<and> predict demo_env demo_file ''gradcam'' ''u1'' no_faults fresh_service
       = (Inr demo_result,
          snd (predict demo_env demo_file ''gradcam'' ''u1'' no_faults fresh_service))
   \<and> forward_hooks (torch (snd (predict demo_env demo_file ''gradcam'' ''u1'' no_faults
        fresh_service))) = [0]
   \<and> backward_hooks (torch (snd (predict demo_env demo_file ''gradcam'' ''u1'' no_faults
        fresh_service))) = [0]"
proof -
  let ?P = "predict demo_env demo_file ''gradcam'' ''u1'' no_faults fresh_service"
  have h: "list_all (\<lambda>(x, c, m). cam_classes m \<noteq> None)
     [(unit_input, 0, ''gradcam''), (unit_input, 1, ''scorecam'')]"
    by (simp add: cam_classes_def)
  have u: "[0..<2] = [0, 1 :: nat]"
    by (simp add: eval_nat_numeral)
  have l: "length [(unit_input, 0::nat, ''gradcam''), (unit_input, 1, ''scorecam'')] = 2"
    by simp
  note t = hooks_accumulate[OF h, of ramp_network unit_input, unfolded l u]
  have "fst ?P = Inr demo_result" by (simp add: predict_eval)
  then have p: "?P = (Inr demo_result, snd ?P)" by (simp add: prod_eq_iff)
  have n: "redis fresh_service (cache_key_of demo_env (up_content demo_file) ''gradcam'') = None"
    "forward_hooks (torch fresh_service) = []" "backward_hooks (torch fresh_service) = []"
    "length (objects (torch fresh_service)) = 0"
    by (simp_all add: fresh_service_def fresh_torch_def)
  from t p have "forward_hooks (torch (snd ?P)) = forward_hooks (torch fresh_service)
             @ (if on_read no_faults = NoFault
                   \<and> redis fresh_service (cache_key_of demo_env (up_content demo_file) ''gradcam'')
                       \<noteq> None
                then [] else [length (objects (torch fresh_service))])
         \<and> backward_hooks (torch (snd ?P)) = backward_hooks (torch fresh_service)
             @ (if on_read no_faults = NoFault
                   \<and> redis fresh_service (cache_key_of demo_env (up_content demo_file) ''gradcam'')
                       \<noteq> None
                then [] else [length (objects (torch fresh_service))])"
    by blast
  then have q: "forward_hooks (torch (snd ?P)) = [0]" "backward_hooks (torch (snd ?P)) = [0]"
    by (simp_all add: n)
  show ?thesis using h t p q by blast
qed

text \<open>
  The claim as worded counts every call and every prediction. Two successful
  predictions of the same bytes and method, the second answered from the cache, leave
  one forward and one backward hook, not two; and a call of \<open>generate_heatmap\<close> with an
  unknown method registers none.
\<close>

theorem hooks_cache_hit_counterexample:
  "fst (predict demo_env demo_file ''gradcam'' ''u1'' no_faults fresh_service) = Inr demo_result
   \<and> fst (predict demo_env renamed_file ''gradcam'' ''u2'' no_faults
        (snd (predict demo_env demo_file ''gradcam'' ''u1'' no_faults fresh_service)))
       = Inr demo_result
   \<and> forward_hooks (torch (snd (predict demo_env renamed_file ''gradcam'' ''u2'' no_faults
        (snd (predict demo_env demo_file ''gradcam'' ''u1'' no_faults fresh_service))))) = [0]
   \<and> backward_hooks (torch (snd (predict demo_env renamed_file ''gradcam'' ''u2'' no_faults
        (snd (predict demo_env demo_file ''gradcam'' ''u1'' no_faults fresh_service))))) = [0]
   \<and> forward_hooks (snd (generate_heatmap ramp_network unit_input 0 ''foo'' fresh_torch)) = []
   \<and> backward_hooks (snd (generate_heatmap ramp_network unit_input 0 ''foo'' fresh_torch)) = []"
proof -
  let ?P = "predict demo_env demo_file ''gradcam'' ''u1'' no_faults fresh_service"
  have v: "up_filename renamed_file \<noteq> []" "allowed_file (cfg demo_env) (up_filename renamed_file)"
    by (simp_all add: renamed_file_def demo_env_def demo_config_def allowed_file_def
        ascii_lower_def)
  have f: "fst ?P = Inr demo_result" by (simp add: predict_eval)
  then have h: "?P = (Inr demo_result, snd ?P)" by (simp add: prod_eq_iff)
  have "redis (snd ?P) (cache_key_of demo_env (up_content demo_file) ''gradcam'')
      = Some demo_result"
    by (rule predict_stores[OF h])
  then have k: "redis (snd ?P) (cache_key_of demo_env (up_content renamed_file) ''gradcam'')
      = Some demo_result"
    by (simp add: demo_file_def renamed_file_def)
  have s: "predict demo_env renamed_file ''gradcam'' ''u2'' no_faults (snd ?P)
      = (Inr demo_result, snd ?P)"
    using v k by (intro predict_hit) (simp_all add: no_faults_def)
  have fh: "forward_hooks (torch (snd ?P)) = [0]" and bh: "backward_hooks (torch (snd ?P)) = [0]"
    by (simp_all add: predict_eval)
  have u: "forward_hooks (snd (generate_heatmap ramp_network unit_input 0 ''foo'' fresh_torch)) = []"
    "backward_hooks (snd (generate_heatmap ramp_network unit_input 0 ''foo'' fresh_torch)) = []"
    by (simp_all add: generate_heatmap_def cam_classes_def fresh_torch_def)
  show ?thesis using f fh bh u unfolding s by simp
qed

end
